theory Spec2Isabelle
  imports Complex_Main "HOL-Library.Word" "HOL-Library.Log_Nat" "HOL-Library.Char_ord"
    "HOL-Library.List_Lexorder"
begin

unbundle bit_operations_syntax

section \<open>Floating-point cells\<close>

text \<open>
  The arrays of \<^verbatim>\<open>services.py\<close> hold IEEE 754 binary64 and binary32 values.  A value is
  modelled by its bit pattern: one sign bit, a biased exponent field (11 or 8 bits) and a
  fraction field (52 or 23 bits).  The fields are read with plain arithmetic on the
  unsigned value of the word.
\<close>

type_synonym float64 = "64 word"
type_synonym float32 = "32 word"

definition sign64 :: "float64 \<Rightarrow> nat" where
  "sign64 w = unat w div 2 ^ 63"

definition exp64 :: "float64 \<Rightarrow> nat" where
  "exp64 w = (unat w div 2 ^ 52) mod 2 ^ 11"

definition frac64 :: "float64 \<Rightarrow> nat" where
  "frac64 w = unat w mod 2 ^ 52"

definition pack64 :: "nat \<Rightarrow> nat \<Rightarrow> nat \<Rightarrow> float64" where
  "pack64 s e f = of_nat (s * 2 ^ 63 + e * 2 ^ 52 + f)"

definition sign32 :: "float32 \<Rightarrow> nat" where
  "sign32 w = unat w div 2 ^ 31"

definition exp32 :: "float32 \<Rightarrow> nat" where
  "exp32 w = (unat w div 2 ^ 23) mod 2 ^ 8"

definition frac32 :: "float32 \<Rightarrow> nat" where
  "frac32 w = unat w mod 2 ^ 23"

definition pack32 :: "nat \<Rightarrow> nat \<Rightarrow> nat \<Rightarrow> float32" where
  "pack32 s e f = of_nat (s * 2 ^ 31 + e * 2 ^ 23 + f)"

text \<open>\<^verbatim>\<open>np.isfinite\<close>, \<^verbatim>\<open>np.isnan\<close> and \<^verbatim>\<open>np.isinf\<close> on binary64, and the value
  \<^verbatim>\<open>np.nan\<close>.\<close>

definition isfinite :: "float64 \<Rightarrow> bool" where
  "isfinite w = (exp64 w \<noteq> 2047)"

definition isnan :: "float64 \<Rightarrow> bool" where
  "isnan w = (exp64 w = 2047 \<and> frac64 w \<noteq> 0)"

definition isinf :: "float64 \<Rightarrow> bool" where
  "isinf w = (exp64 w = 2047 \<and> frac64 w = 0)"

definition nan :: float64 where
  "nan = 0x7FF8000000000000"

definition isfinite32 :: "float32 \<Rightarrow> bool" where
  "isfinite32 w = (exp32 w \<noteq> 255)"

definition isnan32 :: "float32 \<Rightarrow> bool" where
  "isnan32 w = (exp32 w = 255 \<and> frac32 w \<noteq> 0)"

text \<open>
  \<^verbatim>\<open>astype("float32")\<close> on a binary64 array is the C conversion from double to float:
  round to nearest, ties to even, overflow to an infinity, NaN to a quiet NaN.  The
  definitions follow the usual software implementation of that conversion: the fraction
  is shifted right with a sticky bit, then rounded and packed.
\<close>

definition shift_right_jam :: "nat \<Rightarrow> nat \<Rightarrow> nat" where
  "shift_right_jam a n =
     (let q = a div 2 ^ n
      in if a mod 2 ^ n = 0 then q else if even q then q + 1 else q)"

definition round_pack_to_f32 :: "nat \<Rightarrow> int \<Rightarrow> nat \<Rightarrow> float32" where
  "round_pack_to_f32 s e sig =
     (if 0 \<le> e \<and> (253 < e \<or> (e = 253 \<and> 2 ^ 31 \<le> sig + 64)) then pack32 s 255 0
      else
        let sig1 = (if e < 0 then shift_right_jam sig (nat (- e)) else sig);
            e1 = (if e < 0 then 0 else nat e);
            round_bits = sig1 mod 128;
            sig2 = (sig1 + 64) div 128;
            sig3 = (if round_bits = 64 then sig2 - sig2 mod 2 else sig2);
            e2 = (if sig3 = 0 then 0 else e1)
        in pack32 s e2 sig3)"

definition f64_to_f32 :: "float64 \<Rightarrow> float32" where
  "f64_to_f32 w =
     (let s = sign64 w; e = exp64 w; f = frac64 w
      in if e = 2047 then
           (if f \<noteq> 0 then pack32 s 255 (2 ^ 22 OR f div 2 ^ 29) else pack32 s 255 0)
         else
           let f30 = shift_right_jam f 22
           in if e = 0 \<and> f30 = 0 then pack32 s 0 0
              else round_pack_to_f32 s (int e - 897) (f30 + 2 ^ 30))"

text \<open>
  \<^verbatim>\<open>astype("float64")\<close> on a binary32 value is exact.  A subnormal binary32 value is
  normalised first: its fraction is shifted left until bit 23 is set, and that bit is
  carried into the exponent field by the addition in \<open>pack64\<close>.
\<close>

definition count_leading_zeros32 :: "nat \<Rightarrow> nat" where
  "count_leading_zeros32 a = 32 - floorlog 2 a"

definition f32_to_f64 :: "float32 \<Rightarrow> float64" where
  "f32_to_f64 w =
     (let s = sign32 w; e = exp32 w; f = frac32 w
      in if e = 255 then
           (if f \<noteq> 0 then pack64 s 2047 (2 ^ 51 OR f * 2 ^ 29) else pack64 s 2047 0)
         else if e = 0 then
           (if f = 0 then pack64 s 0 0
            else
              let shift_dist = count_leading_zeros32 f - 8
              in pack64 s (896 - shift_dist) (f * 2 ^ shift_dist * 2 ^ 29))
         else pack64 s (e + 896) (f * 2 ^ 29))"

text \<open>
  The comparison \<^verbatim>\<open>>=\<close> of two values of one format: false when an operand is a NaN,
  otherwise the order of the signed magnitudes, in which \<open>-0.0\<close> and \<open>0.0\<close> are equal.
\<close>

definition magnitude64 :: "float64 \<Rightarrow> int" where
  "magnitude64 w =
     (let m = int (unat w mod 2 ^ 63) in if sign64 w = 1 then - m else m)"

definition float64_ge :: "float64 \<Rightarrow> float64 \<Rightarrow> bool" where
  "float64_ge a b = (\<not> isnan a \<and> \<not> isnan b \<and> magnitude64 b \<le> magnitude64 a)"

definition magnitude32 :: "float32 \<Rightarrow> int" where
  "magnitude32 w =
     (let m = int (unat w mod 2 ^ 31) in if sign32 w = 1 then - m else m)"

definition float32_ge :: "float32 \<Rightarrow> float32 \<Rightarrow> bool" where
  "float32_ge a b = (\<not> isnan32 a \<and> \<not> isnan32 b \<and> magnitude32 b \<le> magnitude32 a)"

text \<open>
  The number that a finite bit pattern stands for, as an integer: every finite binary64
  and binary32 value is a multiple of 2 to the power -1074, and \<open>value64\<close> and \<open>value32\<close>
  give the value times 2 to the power 1074.  An exponent field of 0 is a subnormal value,
  without the hidden bit.  The statements about thresholds compare these numbers.
\<close>

definition significand :: "nat \<Rightarrow> nat \<Rightarrow> nat \<Rightarrow> nat" where
  "significand p e f = (if e = 0 then f else (2 ^ p + f) * 2 ^ (e - 1))"

definition value64 :: "float64 \<Rightarrow> int" where
  "value64 w =
     (let m = int (significand 52 (exp64 w) (frac64 w)) in if sign64 w = 1 then - m else m)"

definition value32 :: "float32 \<Rightarrow> int" where
  "value32 w =
     (let m = int (significand 23 (exp32 w) (frac32 w) * 2 ^ 925)
      in if sign32 w = 1 then - m else m)"

section \<open>Tables\<close>

text \<open>
  A \<^verbatim>\<open>pandas.DataFrame\<close> is its row index, its column labels and its cells, one list
  per row.  A cell is a binary64 or a binary32 value; a missing cell is a NaN.  Row labels
  are of any type \<open>'i\<close>.  pandas builds rectangular frames only (\<open>rectangular\<close>).
  Columns of integers or of Python objects, which \<^verbatim>\<open>astype("float64")\<close> would first have to
  convert or refuse, are not part of this model.
\<close>

datatype cell = Float64 float64 | Float32 float32

record 'i dataframe =
  df_index :: "'i list"
  df_columns :: "string list"
  df_values :: "cell list list"

definition rectangular :: "'i dataframe \<Rightarrow> bool" where
  "rectangular X =
     (length (df_values X) = length (df_index X) \<and>
      list_all (\<lambda>row. length row = length (df_columns X)) (df_values X))"

datatype message =
    No_metadata_files_found string string
  | Unexpected_metadata_filename string string
  | Expected_artifact_not_found string
  | Cannot_reindex_duplicate_labels
  | Index_out_of_bounds nat nat
  | Other string

datatype error =
    FileNotFoundError message
  | ValueError message
  | IndexError message
  | Exception message

text \<open>
  \<^verbatim>\<open>X.reindex(columns=cs)\<close>: a frame whose labels already are \<open>cs\<close> is copied; otherwise
  pandas refuses a frame with duplicate labels, and looks every requested label up in the
  frame (\<open>get_indexer\<close>), filling the columns it does not find with NaN.
\<close>

fun get_indexer :: "string list \<Rightarrow> string \<Rightarrow> nat option" where
  "get_indexer [] c = None"
| "get_indexer (x # xs) c =
     (if x = c then Some 0 else map_option Suc (get_indexer xs c))"

definition take_column :: "string list \<Rightarrow> cell list \<Rightarrow> string \<Rightarrow> cell" where
  "take_column labels row c =
     (case get_indexer labels c of None \<Rightarrow> Float64 nan | Some k \<Rightarrow> row ! k)"

definition reindex :: "'i dataframe \<Rightarrow> string list \<Rightarrow> error + 'i dataframe" where
  "reindex X cs =
     (if df_columns X = cs then Inr X
      else if \<not> distinct (df_columns X) then Inl (ValueError Cannot_reindex_duplicate_labels)
      else Inr \<lparr>df_index = df_index X, df_columns = cs,
                df_values = map (\<lambda>row. map (take_column (df_columns X) row) cs) (df_values X)\<rparr>)"

text \<open>\<^verbatim>\<open>astype("float64")\<close> on one cell.\<close>

fun astype_float64 :: "cell \<Rightarrow> float64" where
  "astype_float64 (Float64 w) = w"
| "astype_float64 (Float32 w) = f32_to_f64 w"

section \<open>The sanitizer\<close>

record sanitizer_dict =
  columns :: "string list"
  medians :: "float64 list"

text \<open>What \<^verbatim>\<open>apply_sanitizer\<close> prints: the table's name and the count.\<close>

datatype diagnostic = WARN string nat | INFO string nat

text \<open>Boolean masks over a two-dimensional array: \<^verbatim>\<open>mask.any()\<close>, \<^verbatim>\<open>mask.sum()\<close>,
  \<^verbatim>\<open>arr[mask] = v\<close> and \<^verbatim>\<open>np.where(mask)\<close> (row-major pairs of indices).\<close>

definition mask_any :: "bool list list \<Rightarrow> bool" where
  "mask_any msk = list_ex (list_ex (\<lambda>b. b)) msk"

definition mask_sum :: "bool list list \<Rightarrow> nat" where
  "mask_sum msk = sum_list (map (\<lambda>row. length (filter (\<lambda>b. b) row)) msk)"

definition mask_assign :: "float64 list list \<Rightarrow> bool list list \<Rightarrow> float64 \<Rightarrow> float64 list list" where
  "mask_assign arr msk v =
     map (\<lambda>(row, mrow). map (\<lambda>(x, b). if b then v else x) (zip row mrow)) (zip arr msk)"

definition np_where :: "bool list list \<Rightarrow> (nat \<times> nat) list" where
  "np_where msk =
     concat (map (\<lambda>(i, mrow). map (\<lambda>j. (i, j)) (filter (\<lambda>j. mrow ! j) [0..<length mrow]))
       (zip [0..<length msk] msk))"

text \<open>\<^verbatim>\<open>medians[inds[1]]\<close>: numpy raises IndexError at the first index out of bounds.\<close>

fun take_indices :: "float64 list \<Rightarrow> nat list \<Rightarrow> error + float64 list" where
  "take_indices ms [] = Inr []"
| "take_indices ms (j # js) =
     (if j < length ms then
        (case take_indices ms js of Inl e \<Rightarrow> Inl e | Inr vs \<Rightarrow> Inr (ms ! j # vs))
      else Inl (IndexError (Index_out_of_bounds j (length ms))))"

text \<open>\<^verbatim>\<open>arr[inds] = vs\<close>: the k-th value goes to the k-th pair of indices.\<close>

fun assign_at :: "float64 list list \<Rightarrow> (nat \<times> nat) list \<Rightarrow> float64 list \<Rightarrow> float64 list list" where
  "assign_at arr ((i, j) # inds) (v # vs) = assign_at (arr[i := (arr ! i)[j := v]]) inds vs"
| "assign_at arr inds vs = arr"

definition apply_sanitizer ::
  "'i dataframe \<Rightarrow> sanitizer_dict \<Rightarrow> string \<Rightarrow> diagnostic list \<times> (error + 'i dataframe)" where
  "apply_sanitizer X sanitizer name =
     (case reindex X (columns sanitizer) of
        Inl e \<Rightarrow> ([], Inl e)
      | Inr X_num \<Rightarrow>
          let arr = map (map astype_float64) (df_values X_num);
              non_finite_mask = map (map (\<lambda>v. \<not> isfinite v)) arr;
              out1 = (if mask_any non_finite_mask
                      then [WARN name (mask_sum non_finite_mask)] else []);
              arr1 = (if mask_any non_finite_mask
                      then mask_assign arr non_finite_mask nan else arr);
              nan_mask = map (map isnan) arr1;
              out2 = (if mask_any nan_mask then out1 @ [INFO name (mask_sum nan_mask)] else out1);
              arr2 = (if mask_any nan_mask then
                        (let inds = np_where nan_mask
                         in case take_indices (medians sanitizer) (map snd inds) of
                              Inl e \<Rightarrow> Inl e
                            | Inr vs \<Rightarrow> Inr (assign_at arr1 inds vs))
                      else Inr arr1)
          in case arr2 of
               Inl e \<Rightarrow> (out2, Inl e)
             | Inr a \<Rightarrow>
                 (out2, Inr \<lparr>df_index = df_index X, df_columns = columns sanitizer,
                              df_values = map (map (\<lambda>v. Float32 (f64_to_f32 v))) a\<rparr>))"


section \<open>Configuration\<close>

definition MODEL_BASENAME :: string where "MODEL_BASENAME = ''cyber_ids_champion''"
definition FEATURES_BASENAME :: string where "FEATURES_BASENAME = ''cyber_ids_features''"
definition METADATA_BASENAME :: string where "METADATA_BASENAME = ''cyber_ids_metadata''"
definition SANITIZER_BASENAME :: string where "SANITIZER_BASENAME = ''cyber_ids_sanitizer''"
definition MODEL_SUFFIX :: string where "MODEL_SUFFIX = ''.joblib''"
definition META_SUFFIX :: string where "META_SUFFIX = ''.json''"
definition SANITIZER_SUFFIX :: string where "SANITIZER_SUFFIX = ''.joblib''"

text \<open>The default threshold \<open>0.5\<close> as a binary64 value.\<close>

definition DEFAULT_DECISION_THRESHOLD :: float64 where
  "DEFAULT_DECISION_THRESHOLD = 0x3FE0000000000000"

section \<open>Artifacts, the disk and the process state\<close>

text \<open>
  The model is opaque: all the code uses is \<^verbatim>\<open>predict_proba\<close>, which takes the cleaned
  table and answers with one row of class probabilities per table row, or raises.  The
  array it answers with is of binary64 or of binary32 values, as the library of the model
  has it.
\<close>

datatype ndarray2 = Array64 "float64 list list" | Array32 "float32 list list"

datatype ndarray1 = Vector64 "float64 list" | Vector32 "float32 list"

type_synonym 'i model = "'i dataframe \<Rightarrow> error + ndarray2"

datatype json = JNull | JBool bool | JNumber int | JString string | JArray "json list"
  | JObject "(string \<times> json) list"

record 'i ArtifactBundle =
  version :: string
  model :: "'i model"
  feature_names :: "string list"
  metadata :: "string \<rightharpoonup> json"
  sanitizer :: sanitizer_dict

text \<open>
  The disk is read only.  It answers for the directory of the application
  (\<^verbatim>\<open>APP_DIR\<close>), the entries of a directory, the existence of a path, and what
  \<^verbatim>\<open>joblib.load\<close> and \<^verbatim>\<open>json.load\<close> give for a path: an object of the type the bundle
  annotates, or the exception they raise.
\<close>

record 'i disk =
  APP_DIR :: string
  listdir :: "string \<Rightarrow> string list"
  path_exists :: "string \<Rightarrow> bool"
  joblib_load_model :: "string \<Rightarrow> error + 'i model"
  joblib_load_sanitizer :: "string \<Rightarrow> error + sanitizer_dict"
  json_load_features :: "string \<Rightarrow> error + (string \<rightharpoonup> string list)"
  json_load_metadata :: "string \<Rightarrow> error + (string \<rightharpoonup> json)"

datatype access = Glob string string | Exists string | Read string

text \<open>The state of the process: the global \<^verbatim>\<open>_ARTIFACT_CACHE\<close>, the accesses made to the
  disk so far, and what was printed.\<close>

record 'i world =
  ARTIFACT_CACHE :: "'i ArtifactBundle option"
  disk_accesses :: "access list"
  stdout :: "diagnostic list"

definition path_join :: "string \<Rightarrow> string \<Rightarrow> string" where
  "path_join dir name = dir @ ''/'' @ name"

definition ARTIFACTS_ROOT :: "'i disk \<Rightarrow> string" where
  "ARTIFACTS_ROOT d = path_join (APP_DIR d) ''artifacts''"

definition MODELS_DIR :: "'i disk \<Rightarrow> string" where
  "MODELS_DIR d = path_join (ARTIFACTS_ROOT d) ''models''"

definition META_DIR :: "'i disk \<Rightarrow> string" where
  "META_DIR d = path_join (ARTIFACTS_ROOT d) ''meta''"

section \<open>Version discovery\<close>

text \<open>
  \<^verbatim>\<open>Path.glob\<close> matches the names of a directory against the pattern, case sensitive as
  on POSIX.  The pattern of the code has literal characters and one \<open>*\<close>, which stands
  for any run of characters, the empty one too.
\<close>

fun fnmatch :: "string \<Rightarrow> string \<Rightarrow> bool" where
  "fnmatch [] [] = True"
| "fnmatch (c # cs) [] = False"
| "fnmatch [] (p # ps) = (p = CHR ''*'' \<and> fnmatch [] ps)"
| "fnmatch (c # cs) (p # ps) =
     (if p = CHR ''*'' then fnmatch (c # cs) ps \<or> fnmatch cs (p # ps)
      else p = c \<and> fnmatch cs ps)"

text \<open>\<^verbatim>\<open>PurePath.stem\<close>: the name up to its last dot, unless that dot is the first or the
  last character or there is none.\<close>

definition rfind_dot :: "string \<Rightarrow> nat option" where
  "rfind_dot name =
     (let k = length (takeWhile (\<lambda>c. c \<noteq> CHR ''.'') (rev name))
      in if k = length name then None else Some (length name - 1 - k))"

definition stem :: "string \<Rightarrow> string" where
  "stem name =
     (case rfind_dot name of
        None \<Rightarrow> name
      | Some i \<Rightarrow> if 0 < i \<and> i < length name - 1 then take i name else name)"

definition startswith :: "string \<Rightarrow> string \<Rightarrow> bool" where
  "startswith name p = (take (length p) name = p)"

definition discover_latest_version ::
  "'i disk \<Rightarrow> string \<Rightarrow> 'i world \<Rightarrow> (error + string) \<times> 'i world" where
  "discover_latest_version d meta_dir w =
     (let pattern = METADATA_BASENAME @ ''_*'' @ META_SUFFIX;
          w1 = w\<lparr>disk_accesses := disk_accesses w @ [Glob meta_dir pattern]\<rparr>;
          candidates = sort (filter (\<lambda>name. fnmatch name pattern) (listdir d meta_dir))
      in if candidates = [] then
           (Inl (FileNotFoundError (No_metadata_files_found meta_dir pattern)), w1)
         else
           let latest = last candidates;
               name = stem latest;
               prefix = METADATA_BASENAME @ ''_''
           in if \<not> startswith name prefix then
                (Inl (ValueError (Unexpected_metadata_filename latest prefix)), w1)
              else (Inr (drop (length prefix) name), w1))"


section \<open>Loading and caching\<close>

definition accessed :: "access \<Rightarrow> 'i world \<Rightarrow> 'i world" where
  "accessed a w = w\<lparr>disk_accesses := disk_accesses w @ [a]\<rparr>"

definition artifact_paths :: "'i disk \<Rightarrow> string \<Rightarrow> string list" where
  "artifact_paths d v =
     [path_join (MODELS_DIR d) (MODEL_BASENAME @ ''_'' @ v @ MODEL_SUFFIX),
      path_join (META_DIR d) (FEATURES_BASENAME @ ''_'' @ v @ META_SUFFIX),
      path_join (META_DIR d) (METADATA_BASENAME @ ''_'' @ v @ META_SUFFIX),
      path_join (META_DIR d) (SANITIZER_BASENAME @ ''_'' @ v @ SANITIZER_SUFFIX)]"

text \<open>The loop of lines 76 to 78: the first path that does not exist, if any.\<close>

fun first_missing :: "'i disk \<Rightarrow> string list \<Rightarrow> 'i world \<Rightarrow> string option \<times> 'i world" where
  "first_missing d [] w = (None, w)"
| "first_missing d (p # ps) w =
     (if \<not> path_exists d p then (Some p, accessed (Exists p) w)
      else first_missing d ps (accessed (Exists p) w))"

text \<open>Lines 80 to 97: the four files are read in turn, and the first exception ends the
  call.\<close>

definition read_bundle ::
  "'i disk \<Rightarrow> string \<Rightarrow> 'i world \<Rightarrow> (error + 'i ArtifactBundle) \<times> 'i world" where
  "read_bundle d v w =
     (let model_path = artifact_paths d v ! 0;
          feature_list_path = artifact_paths d v ! 1;
          metadata_path = artifact_paths d v ! 2;
          sanitizer_path = artifact_paths d v ! 3;
          w1 = accessed (Read model_path) w
      in case joblib_load_model d model_path of
           Inl e \<Rightarrow> (Inl e, w1)
         | Inr m \<Rightarrow>
             let w2 = accessed (Read feature_list_path) w1
             in case json_load_features d feature_list_path of
                  Inl e \<Rightarrow> (Inl e, w2)
                | Inr feature_payload \<Rightarrow>
                    let fs = (case feature_payload ''features'' of None \<Rightarrow> [] | Some l \<Rightarrow> l);
                        w3 = accessed (Read metadata_path) w2
                    in case json_load_metadata d metadata_path of
                         Inl e \<Rightarrow> (Inl e, w3)
                       | Inr md \<Rightarrow>
                           let w4 = accessed (Read sanitizer_path) w3
                           in case joblib_load_sanitizer d sanitizer_path of
                                Inl e \<Rightarrow> (Inl e, w4)
                              | Inr sn \<Rightarrow>
                                  (Inr \<lparr>version = v, model = m, feature_names = fs,
                                        metadata = md, sanitizer = sn\<rparr>, w4))"

text \<open>
  \<^verbatim>\<open>load_artifacts\<close>.  Line 69 assigns the discovered version to \<^verbatim>\<open>version\<close>, so at
  line 99 the test \<^verbatim>\<open>version is not None\<close> is on the resolved version, which is a string
  on every path that reaches it.
\<close>

definition load_artifacts ::
  "'i disk \<Rightarrow> string option \<Rightarrow> bool \<Rightarrow> 'i world \<Rightarrow> (error + 'i ArtifactBundle) \<times> 'i world" where
  "load_artifacts d version_arg use_cache w =
     (if use_cache \<and> ARTIFACT_CACHE w \<noteq> None \<and> version_arg = None
      then (Inr (the (ARTIFACT_CACHE w)), w)
      else
        case (case version_arg of
                None \<Rightarrow> discover_latest_version d (META_DIR d) w
              | Some v \<Rightarrow> (Inr v, w)) of
          (Inl e, w1) \<Rightarrow> (Inl e, w1)
        | (Inr v, w1) \<Rightarrow>
            (case first_missing d (artifact_paths d v) w1 of
               (Some p, w2) \<Rightarrow> (Inl (FileNotFoundError (Expected_artifact_not_found p)), w2)
             | (None, w2) \<Rightarrow>
                 (case read_bundle d v w2 of
                    (Inl e, w3) \<Rightarrow> (Inl e, w3)
                  | (Inr bundle, w3) \<Rightarrow>
                      let version_now = Some v
                      in if use_cache \<and> version_now \<noteq> None
                         then (Inr bundle, w3\<lparr>ARTIFACT_CACHE := Some bundle\<rparr>)
                         else (Inr bundle, w3))))"

section \<open>Prediction\<close>

text \<open>\<^verbatim>\<open>[:, 1]\<close>: the second entry of every row, IndexError when a row has none.\<close>

fun second_column :: "'a list list \<Rightarrow> error + 'a list" where
  "second_column [] = Inr []"
| "second_column (row # rows) =
     (if 1 < length row then
        (case second_column rows of Inl e \<Rightarrow> Inl e | Inr ps \<Rightarrow> Inr (row ! 1 # ps))
      else Inl (IndexError (Index_out_of_bounds 1 (length row))))"

text \<open>
  Lines 150 and 151 on the answer of the model.  numpy compares an array with a Python
  float in the format of the array: binary64 probabilities are compared with the threshold
  itself, binary32 probabilities with the threshold cast to binary32.
\<close>

definition proba_labels :: "ndarray2 \<Rightarrow> float64 \<Rightarrow> error + ndarray1 \<times> int list" where
  "proba_labels probabilities threshold =
     (case probabilities of
        Array64 rows \<Rightarrow>
          (case second_column rows of
             Inl e \<Rightarrow> Inl e
           | Inr proba \<Rightarrow>
               Inr (Vector64 proba, map (\<lambda>p. if float64_ge p threshold then 1 else 0) proba))
      | Array32 rows \<Rightarrow>
          (case second_column rows of
             Inl e \<Rightarrow> Inl e
           | Inr proba \<Rightarrow>
               Inr (Vector32 proba,
                    map (\<lambda>p. if float32_ge p (f64_to_f32 threshold) then 1 else 0) proba)))"

text \<open>\<^verbatim>\<open>predict_from_dataframe\<close>.  An argument that the caller leaves out is \<open>None\<close>: the
  threshold then is the default of the signature, and the bundle is loaded.\<close>

definition predict_from_dataframe ::
  "'i disk \<Rightarrow> 'i dataframe \<Rightarrow> float64 option \<Rightarrow> 'i ArtifactBundle option \<Rightarrow> string \<Rightarrow> 'i world \<Rightarrow>
     (error + ndarray1 \<times> int list \<times> 'i ArtifactBundle) \<times> 'i world" where
  "predict_from_dataframe d df threshold_arg artifacts_arg name w =
     (let threshold = (case threshold_arg of None \<Rightarrow> DEFAULT_DECISION_THRESHOLD | Some t \<Rightarrow> t)
      in case (case artifacts_arg of
                 None \<Rightarrow> load_artifacts d None True w
               | Some a \<Rightarrow> (Inr a, w)) of
           (Inl e, w1) \<Rightarrow> (Inl e, w1)
         | (Inr artifacts, w1) \<Rightarrow>
             (case reindex df (feature_names artifacts) of
                Inl e \<Rightarrow> (Inl e, w1)
              | Inr df1 \<Rightarrow>
                  (case apply_sanitizer df1 (sanitizer artifacts) name of
                     (out, r) \<Rightarrow>
                       let w2 = w1\<lparr>stdout := stdout w1 @ out\<rparr>
                       in case r of
                            Inl e \<Rightarrow> (Inl e, w2)
                          | Inr X_clean \<Rightarrow>
                              (case model artifacts X_clean of
                                 Inl e \<Rightarrow> (Inl e, w2)
                               | Inr probabilities \<Rightarrow>
                                   (case proba_labels probabilities threshold of
                                      Inl e \<Rightarrow> (Inl e, w2)
                                    | Inr (proba, labels) \<Rightarrow>
                                        (Inr (proba, labels, artifacts), w2))))))"


section \<open>What the sanitizer should compute\<close>

text \<open>
  The specification of the repair, in the words of the spec: a cell that is not finite
  takes the median at the position of its column, every other cell stays.  The facts
  below show that the masks and indexed assignments of \<^verbatim>\<open>apply_sanitizer\<close> compute it.
\<close>

definition impute_spec :: "float64 list \<Rightarrow> float64 list list \<Rightarrow> float64 list list" where
  "impute_spec ms arr =
     map (\<lambda>row. map (\<lambda>j. if isfinite (row ! j) then row ! j else ms ! j) [0..<length row]) arr"

text \<open>A cell that pandas counts as missing.\<close>

fun cell_isnan :: "cell \<Rightarrow> bool" where
  "cell_isnan (Float64 w) = isnan w"
| "cell_isnan (Float32 w) = isnan32 w"

section \<open>Example inputs\<close>

text \<open>
  A disk with three metadata files and one unrelated file, on which every artifact
  exists and loads; the features are \<open>src_port\<close> and \<open>dst_port\<close> with medians \<open>0.0\<close>,
  and the model answers \<open>0.5\<close> for both classes on every row.
\<close>

definition example_sanitizer :: sanitizer_dict where
  "example_sanitizer = \<lparr>columns = [''src_port'', ''dst_port''], medians = [0, 0]\<rparr>"

definition example_model :: "nat model" where
  "example_model =
     (\<lambda>X. Inr (Array64 (map (\<lambda>row. [0x3FE0000000000000, 0x3FE0000000000000]) (df_values X))))"

definition example_bundle :: "string \<Rightarrow> nat ArtifactBundle" where
  "example_bundle v =
     \<lparr>version = v, model = example_model, feature_names = [''src_port'', ''dst_port''],
      metadata = Map.empty, sanitizer = example_sanitizer\<rparr>"

definition example_disk :: "nat disk" where
  "example_disk =
     \<lparr>APP_DIR = ''/srv/cyber_ids'',
      listdir = (\<lambda>dir. [''cyber_ids_metadata_20240101-0000.json'',
                         ''cyber_ids_metadata_20240601-1200.json'',
                         ''notes.json'',
                         ''cyber_ids_metadata_20230101-0000.json'']),
      path_exists = (\<lambda>p. True),
      joblib_load_model = (\<lambda>p. Inr example_model),
      joblib_load_sanitizer = (\<lambda>p. Inr example_sanitizer),
      json_load_features = (\<lambda>p. Inr [''features'' \<mapsto> [''src_port'', ''dst_port'']]),
      json_load_metadata = (\<lambda>p. Inr Map.empty)\<rparr>"

definition example_world :: "nat world" where
  "example_world = \<lparr>ARTIFACT_CACHE = None, disk_accesses = [], stdout = []\<rparr>"

text \<open>The state after \<^verbatim>\<open>load_artifacts()\<close> on the example disk, from the empty cache.\<close>

definition example_loaded_world :: "nat world" where
  "example_loaded_world =
     \<lparr>ARTIFACT_CACHE = Some (example_bundle ''20240601-1200''),
      disk_accesses =
        [Glob ''/srv/cyber_ids/artifacts/meta'' ''cyber_ids_metadata_*.json'',
         Exists ''/srv/cyber_ids/artifacts/models/cyber_ids_champion_20240601-1200.joblib'',
         Exists ''/srv/cyber_ids/artifacts/meta/cyber_ids_features_20240601-1200.json'',
         Exists ''/srv/cyber_ids/artifacts/meta/cyber_ids_metadata_20240601-1200.json'',
         Exists ''/srv/cyber_ids/artifacts/meta/cyber_ids_sanitizer_20240601-1200.joblib'',
         Read ''/srv/cyber_ids/artifacts/models/cyber_ids_champion_20240601-1200.joblib'',
         Read ''/srv/cyber_ids/artifacts/meta/cyber_ids_features_20240601-1200.json'',
         Read ''/srv/cyber_ids/artifacts/meta/cyber_ids_metadata_20240601-1200.json'',
         Read ''/srv/cyber_ids/artifacts/meta/cyber_ids_sanitizer_20240601-1200.joblib''],
      stdout = []\<rparr>"

text \<open>One request row: \<open>src_port = 80.0\<close> and a missing \<open>dst_port\<close>.\<close>

definition example_request :: "nat dataframe" where
  "example_request =
     \<lparr>df_index = [0], df_columns = [''src_port'', ''dst_port''],
      df_values = [[Float64 0x4054000000000000, Float64 nan]]\<rparr>"

text \<open>The example disk without the sanitizer file of version \<open>X\<close>.\<close>

definition example_disk_incomplete :: "nat disk" where
  "example_disk_incomplete =
     example_disk\<lparr>path_exists :=
       (\<lambda>p. p \<noteq> ''/srv/cyber_ids/artifacts/meta/cyber_ids_sanitizer_X.joblib'')\<rparr>"

text \<open>The example disk with no metadata file.\<close>

definition example_disk_no_metadata :: "nat disk" where
  "example_disk_no_metadata = example_disk\<lparr>listdir := (\<lambda>dir. [''notes.json''])\<rparr>"

text \<open>Tables and sanitizers for the examples of the spec: columns \<open>a\<close> and \<open>b\<close> with medians
  \<open>1.0\<close> and \<open>2.0\<close>; a table with a NaN and an infinity in \<open>a\<close> and an extra column; a clean
  table; and a table that holds \<open>1e39\<close>, finite in binary64 and beyond the range of binary32.\<close>

definition example_ab :: sanitizer_dict where
  "example_ab = \<lparr>columns = [''a'', ''b''], medians = [0x3FF0000000000000, 0x4000000000000000]\<rparr>"

definition example_dirty :: "nat dataframe" where
  "example_dirty =
     \<lparr>df_index = [0, 1], df_columns = [''b'', ''a'', ''z''],
      df_values = [[Float64 0x4014000000000000, Float64 nan, Float64 0],
                   [Float64 0x4014000000000000, Float64 0x7FF0000000000000, Float64 0]]\<rparr>"

definition example_clean :: "nat dataframe" where
  "example_clean =
     \<lparr>df_index = [0], df_columns = [''a'', ''b''],
      df_values = [[Float64 0x4014000000000000, Float64 0x4000000000000000]]\<rparr>"

definition example_overflow :: "nat dataframe" where
  "example_overflow =
     \<lparr>df_index = [0], df_columns = [''a'', ''b''],
      df_values = [[Float64 0x48078287F49C4A1D, Float64 0x4014000000000000]]\<rparr>"

text \<open>
  A model that answers with the cleaned table itself, as binary32 probabilities: what it
  returns shows what it was given.  And a model that answers \<open>0.3\<close> and \<open>0.7\<close> in binary32
  on every row.
\<close>

fun float32_of_cell :: "cell \<Rightarrow> float32" where
  "float32_of_cell (Float32 w) = w"
| "float32_of_cell (Float64 w) = f64_to_f32 w"

definition example_echo_model :: "nat model" where
  "example_echo_model = (\<lambda>X. Inr (Array32 (map (map float32_of_cell) (df_values X))))"

definition example_model_f32 :: "nat model" where
  "example_model_f32 = (\<lambda>X. Inr (Array32 (map (\<lambda>row. [0x3E99999A, 0x3F333333]) (df_values X))))"

definition example_bundle_f32 :: "nat ArtifactBundle" where
  "example_bundle_f32 =
     \<lparr>version = ''X'', model = example_model_f32, feature_names = [''src_port'', ''dst_port''],
      metadata = Map.empty, sanitizer = example_sanitizer\<rparr>"

definition example_bundle_echo :: "nat ArtifactBundle" where
  "example_bundle_echo =
     \<lparr>version = ''X'', model = example_echo_model, feature_names = [''src_port'', ''dst_port''],
      metadata = Map.empty, sanitizer = example_sanitizer\<rparr>"

text \<open>Three rows whose second column is \<open>0.25\<close>, \<open>0.5\<close> and \<open>0.75\<close>.\<close>

definition example_scores :: "nat dataframe" where
  "example_scores =
     \<lparr>df_index = [0, 1, 2], df_columns = [''src_port'', ''dst_port''],
      df_values = [[Float64 0, Float64 0x3FD0000000000000],
                   [Float64 0, Float64 0x3FE0000000000000],
                   [Float64 0, Float64 0x3FE8000000000000]]\<rparr>"

text \<open>
  A disk whose bundle has diverging column lists: the feature list lacks \<open>dst_port\<close>,
  which the sanitizer lists with the median \<open>80.0\<close>; the model is the one that answers
  with its input.  And a request with \<open>dst_port = 443.0\<close>.
\<close>

definition example_sanitizer_diverging :: sanitizer_dict where
  "example_sanitizer_diverging =
     \<lparr>columns = [''src_port'', ''dst_port''], medians = [0, 0x4054000000000000]\<rparr>"

definition example_bundle_diverging :: "nat ArtifactBundle" where
  "example_bundle_diverging =
     \<lparr>version = ''20240601-1200'', model = example_echo_model, feature_names = [''src_port''],
      metadata = Map.empty, sanitizer = example_sanitizer_diverging\<rparr>"

definition example_disk_diverging :: "nat disk" where
  "example_disk_diverging =
     example_disk\<lparr>joblib_load_model := (\<lambda>p. Inr example_echo_model),
       joblib_load_sanitizer := (\<lambda>p. Inr example_sanitizer_diverging),
       json_load_features := (\<lambda>p. Inr [''features'' \<mapsto> [''src_port'']])\<rparr>"

definition example_request_https :: "nat dataframe" where
  "example_request_https =
     \<lparr>df_index = [0], df_columns = [''src_port'', ''dst_port''],
      df_values = [[Float64 0x4054000000000000, Float64 0x407BB00000000000]]\<rparr>"

section \<open>Facts about loading and the cache\<close>

lemmas config_defs =
  MODEL_BASENAME_def FEATURES_BASENAME_def METADATA_BASENAME_def SANITIZER_BASENAME_def
  MODEL_SUFFIX_def META_SUFFIX_def SANITIZER_SUFFIX_def path_join_def ARTIFACTS_ROOT_def
  MODELS_DIR_def META_DIR_def

lemmas example_defs =
  example_sanitizer_def example_bundle_def example_disk_def example_world_def
  example_request_def example_loaded_world_def

lemmas loading_defs =
  discover_latest_version_def rfind_dot_def stem_def startswith_def accessed_def
  artifact_paths_def read_bundle_def load_artifacts_def Let_def

lemmas float_defs =
  f64_to_f32_def f32_to_f64_def sign64_def exp64_def frac64_def pack32_def pack64_def
  sign32_def exp32_def frac32_def shift_right_jam_def round_pack_to_f32_def
  isfinite_def isnan_def isinf_def nan_def isfinite32_def isnan32_def magnitude64_def
  float64_ge_def magnitude32_def float32_ge_def

lemmas table_defs =
  apply_sanitizer_def reindex_def take_column_def mask_any_def mask_sum_def mask_assign_def
  np_where_def rectangular_def

lemma accessed_cache: "ARTIFACT_CACHE (accessed a w) = ARTIFACT_CACHE w"
  by (simp add: accessed_def)

lemma discover_cache:
  "ARTIFACT_CACHE (snd (discover_latest_version d dir w)) = ARTIFACT_CACHE w"
  by (simp add: discover_latest_version_def Let_def)

lemma first_missing_find:
  "fst (first_missing d ps w) = find (\<lambda>p. \<not> path_exists d p) ps"
  by (induction ps arbitrary: w) simp_all

lemma first_missing_cache:
  "ARTIFACT_CACHE (snd (first_missing d ps w)) = ARTIFACT_CACHE w"
  by (induction ps arbitrary: w) (simp_all add: accessed_cache)

lemma read_bundle_cache:
  "ARTIFACT_CACHE (snd (read_bundle d v w)) = ARTIFACT_CACHE w"
  by (simp add: read_bundle_def Let_def accessed_cache split: sum.split)

lemma load_artifacts_fast:
  assumes "use_cache" "ARTIFACT_CACHE w = Some b" "version_arg = None"
  shows "load_artifacts d version_arg use_cache w = (Inr b, w)"
  using assms by (simp add: load_artifacts_def)

lemma load_artifacts_slow:
  assumes "\<not> (use_cache \<and> ARTIFACT_CACHE w \<noteq> None \<and> version_arg = None)"
  shows "load_artifacts d version_arg use_cache w =
    (case (case version_arg of
                None \<Rightarrow> discover_latest_version d (META_DIR d) w
              | Some v \<Rightarrow> (Inr v, w)) of
          (Inl e, w1) \<Rightarrow> (Inl e, w1)
        | (Inr v, w1) \<Rightarrow>
            (case first_missing d (artifact_paths d v) w1 of
               (Some p, w2) \<Rightarrow> (Inl (FileNotFoundError (Expected_artifact_not_found p)), w2)
             | (None, w2) \<Rightarrow>
                 (case read_bundle d v w2 of
                    (Inl e, w3) \<Rightarrow> (Inl e, w3)
                  | (Inr bundle, w3) \<Rightarrow>
                      if use_cache
                         then (Inr bundle, w3\<lparr>ARTIFACT_CACHE := Some bundle\<rparr>)
                         else (Inr bundle, w3))))"
  using assms unfolding load_artifacts_def Let_def
  by (simp only: if_False) (simp split: prod.split sum.split option.split)

lemma load_artifacts_cache_after:
  assumes "load_artifacts d version_arg use_cache w = (r, w')"
  shows "ARTIFACT_CACHE w' =
    (case r of Inr b \<Rightarrow> if use_cache then Some b else ARTIFACT_CACHE w
             | Inl e \<Rightarrow> ARTIFACT_CACHE w)"
proof (cases "use_cache \<and> ARTIFACT_CACHE w \<noteq> None \<and> version_arg = None")
  case True
  then obtain b where "ARTIFACT_CACHE w = Some b" by auto
  with True assms show ?thesis by (auto simp: load_artifacts_fast)
next
  case False
  obtain rv w1 where v: "(case version_arg of
                None \<Rightarrow> discover_latest_version d (META_DIR d) w
              | Some v \<Rightarrow> (Inr v, w)) = (rv, w1)" by (cases "(case version_arg of
                None \<Rightarrow> discover_latest_version d (META_DIR d) w
              | Some v \<Rightarrow> (Inr v, w))") 
  have c1: "ARTIFACT_CACHE w1 = ARTIFACT_CACHE w"
    using v discover_cache [of d "META_DIR d" w] by (cases version_arg) auto
  show ?thesis
  proof (cases rv)
    case (Inl e)
    with assms v c1 show ?thesis by (auto simp: load_artifacts_slow [OF False])
  next
    case (Inr ver)
    obtain m w2 where fm: "first_missing d (artifact_paths d ver) w1 = (m, w2)"
      by (cases "first_missing d (artifact_paths d ver) w1")
    have c2: "ARTIFACT_CACHE w2 = ARTIFACT_CACHE w"
      using first_missing_cache [of d "artifact_paths d ver" w1] fm c1 by simp
    obtain rb w3 where rb: "read_bundle d ver w2 = (rb, w3)"
      by (cases "read_bundle d ver w2")
    have c3: "ARTIFACT_CACHE w3 = ARTIFACT_CACHE w"
      using read_bundle_cache [of d ver w2] rb c2 by simp
    show ?thesis
      using assms v Inr fm rb c2 c3
      by (auto simp: load_artifacts_slow [OF False] split: option.splits sum.splits if_splits)
  qed
qed


section \<open>Claims about the cache\<close>

text \<open>
  Claim C5.  When the cache is populated, \<^verbatim>\<open>load_artifacts\<close> with \<^verbatim>\<open>use_cache\<close> true and no
  explicit version returns the cached bundle and leaves the whole state as it was, the
  list of disk accesses included.  So a call \<^verbatim>\<open>load_artifacts()\<close> that returns a bundle
  leaves a state in which the same call returns that bundle again without any disk access.
\<close>

theorem load_artifacts_cache_hit:
  "(ARTIFACT_CACHE w = Some b \<longrightarrow> load_artifacts d None True w = (Inr b, w)) \<and>
   (load_artifacts d None True w = (Inr b, w') \<longrightarrow> load_artifacts d None True w' = (Inr b, w'))"
proof (intro conjI impI)
  assume "ARTIFACT_CACHE w = Some b"
  then show "load_artifacts d None True w = (Inr b, w)"
    by (simp add: load_artifacts_fast)
next
  assume first: "load_artifacts d None True w = (Inr b, w')"
  from load_artifacts_cache_after [OF first] have "ARTIFACT_CACHE w' = Some b"
    by simp
  then show "load_artifacts d None True w' = (Inr b, w')"
    by (simp add: load_artifacts_fast)
qed

theorem load_artifacts_cache_hit_witness:
  "load_artifacts example_disk None True example_world =
     (Inr (example_bundle ''20240601-1200''), example_loaded_world) \<and>
   ARTIFACT_CACHE example_loaded_world = Some (example_bundle ''20240601-1200'') \<and>
   load_artifacts example_disk None True example_loaded_world =
     (Inr (example_bundle ''20240601-1200''), example_loaded_world)"
proof -
  have first: "load_artifacts example_disk None True example_world =
     (Inr (example_bundle ''20240601-1200''), example_loaded_world)"
    by (simp add: example_defs config_defs loading_defs less_eq_char_def less_char_def)
  have cached: "ARTIFACT_CACHE example_loaded_world = Some (example_bundle ''20240601-1200'')"
    by (simp add: example_loaded_world_def)
  from load_artifacts_cache_hit [of example_world "example_bundle ''20240601-1200''"
      example_disk example_loaded_world]
  have "load_artifacts example_disk None True example_loaded_world =
     (Inr (example_bundle ''20240601-1200''), example_loaded_world)"
    using first by simp
  moreover from load_artifacts_cache_hit [of example_loaded_world
      "example_bundle ''20240601-1200''" example_disk example_loaded_world]
  have "load_artifacts example_disk None True example_loaded_world =
     (Inr (example_bundle ''20240601-1200''), example_loaded_world)"
    using cached by simp
  ultimately show ?thesis
    using first cached by simp
qed

text \<open>
  Claim C6, as the code has it.  After a call of \<^verbatim>\<open>load_artifacts\<close> the cache holds the
  returned bundle when the call returned one and \<^verbatim>\<open>use_cache\<close> was true, whether the
  version was given or discovered; a call with \<^verbatim>\<open>use_cache\<close> false and a call that fails
  leave the cache as it was.
\<close>

theorem load_artifacts_cache_written:
  assumes "load_artifacts d version_arg use_cache w = (r, w')"
  shows "ARTIFACT_CACHE w' =
    (case r of Inr b \<Rightarrow> if use_cache then Some b else ARTIFACT_CACHE w
             | Inl e \<Rightarrow> ARTIFACT_CACHE w)"
  using assms by (rule load_artifacts_cache_after)

theorem load_artifacts_cache_written_witness:
  "fst (load_artifacts example_disk (Some ''X'') False example_world) = Inr (example_bundle ''X'') \<and>
   ARTIFACT_CACHE (snd (load_artifacts example_disk (Some ''X'') False example_world)) = None"
proof -
  have r: "fst (load_artifacts example_disk (Some ''X'') False example_world) =
      Inr (example_bundle ''X'')"
    by (simp add: example_defs config_defs loading_defs)
  have "load_artifacts example_disk (Some ''X'') False example_world =
      (fst (load_artifacts example_disk (Some ''X'') False example_world),
       snd (load_artifacts example_disk (Some ''X'') False example_world))"
    by simp
  from load_artifacts_cache_written [OF this] r show ?thesis
    by (simp add: example_world_def)
qed

text \<open>
  Claim C6, as it is stated, fails: on the example disk, with an empty cache, a call with
  the explicit version \<open>X\<close> and \<^verbatim>\<open>use_cache\<close> true stores the bundle of \<open>X\<close> in the cache.
\<close>

theorem explicit_version_overwrites_cache:
  "ARTIFACT_CACHE example_world = None \<and>
   ARTIFACT_CACHE (snd (load_artifacts example_disk (Some ''X'') True example_world)) =
     Some (example_bundle ''X'')"
  by (simp add: example_defs config_defs loading_defs)

section \<open>Claims about loading\<close>

text \<open>
  Claim C4.  When the call reaches the disk and the version is resolved (given, or
  discovered), and one of the four artifact paths does not exist, \<^verbatim>\<open>load_artifacts\<close> fails
  with the FileNotFoundError that names the first such path in the order model, feature
  list, metadata, sanitizer; no bundle is returned and the cache is as before.
\<close>

theorem load_artifacts_missing_artifact:
  assumes "\<not> (use_cache \<and> ARTIFACT_CACHE w \<noteq> None \<and> version_arg = None)"
    and "(case version_arg of
            None \<Rightarrow> fst (discover_latest_version d (META_DIR d) w)
          | Some v \<Rightarrow> Inr v) = Inr v"
    and "\<exists>q \<in> set (artifact_paths d v). \<not> path_exists d q"
  shows "\<exists>p. find (\<lambda>q. \<not> path_exists d q) (artifact_paths d v) = Some p \<and>
    fst (load_artifacts d version_arg use_cache w) =
      Inl (FileNotFoundError (Expected_artifact_not_found p)) \<and>
    ARTIFACT_CACHE (snd (load_artifacts d version_arg use_cache w)) = ARTIFACT_CACHE w"
proof -
  from assms(3) obtain p where p: "find (\<lambda>q. \<not> path_exists d q) (artifact_paths d v) = Some p"
    by (cases "find (\<lambda>q. \<not> path_exists d q) (artifact_paths d v)") (auto simp: find_None_iff)
  obtain w1 where v: "(case version_arg of
            None \<Rightarrow> discover_latest_version d (META_DIR d) w
          | Some v \<Rightarrow> (Inr v, w)) = (Inr v, w1)"
    using assms(2) by (cases version_arg; cases "discover_latest_version d (META_DIR d) w") auto
  obtain w2 where fm: "first_missing d (artifact_paths d v) w1 = (Some p, w2)"
    using first_missing_find [of d "artifact_paths d v" w1] p
    by (cases "first_missing d (artifact_paths d v) w1") auto
  have r: "load_artifacts d version_arg use_cache w =
      (Inl (FileNotFoundError (Expected_artifact_not_found p)), w2)"
    by (simp add: load_artifacts_slow [OF assms(1)] v fm)
  have "ARTIFACT_CACHE (snd (load_artifacts d version_arg use_cache w)) = ARTIFACT_CACHE w"
    using load_artifacts_cache_after [OF r] r by simp
  with p r show ?thesis by simp
qed

theorem load_artifacts_missing_artifact_witness:
  "fst (load_artifacts example_disk_incomplete (Some ''X'') True example_world) =
     Inl (FileNotFoundError (Expected_artifact_not_found
       ''/srv/cyber_ids/artifacts/meta/cyber_ids_sanitizer_X.joblib'')) \<and>
   ARTIFACT_CACHE (snd (load_artifacts example_disk_incomplete (Some ''X'') True example_world)) =
     None"
proof -
  have 1: "\<not> (True \<and> ARTIFACT_CACHE example_world \<noteq> None \<and> Some ''X'' = None)"
    by simp
  have 2: "(case Some ''X'' of
            None \<Rightarrow> fst (discover_latest_version example_disk_incomplete
              (META_DIR example_disk_incomplete) example_world)
          | Some v \<Rightarrow> Inr v) = Inr ''X''"
    by simp
  have 3: "\<exists>q \<in> set (artifact_paths example_disk_incomplete ''X'').
      \<not> path_exists example_disk_incomplete q"
    by (simp add: example_disk_incomplete_def example_defs config_defs artifact_paths_def)
  have 4: "find (\<lambda>q. \<not> path_exists example_disk_incomplete q)
      (artifact_paths example_disk_incomplete ''X'') =
      Some ''/srv/cyber_ids/artifacts/meta/cyber_ids_sanitizer_X.joblib''"
    by (simp add: example_disk_incomplete_def example_defs config_defs artifact_paths_def)
  from load_artifacts_missing_artifact [OF 1 2 3] 4 show ?thesis
    by (simp add: example_world_def)
qed

section \<open>Version discovery: facts and claims\<close>

lemma fnmatch_literal:
  "CHR ''*'' \<notin> set p \<Longrightarrow> fnmatch name p \<longleftrightarrow> name = p"
  by (induction name p rule: fnmatch.induct) auto

lemma fnmatch_star:
  "CHR ''*'' \<notin> set s \<Longrightarrow> fnmatch name (CHR ''*'' # s) \<longleftrightarrow> (\<exists>v. name = v @ s)"
proof (induction name)
  case Nil
  then show ?case by (cases s) (auto simp: fnmatch_literal)
next
  case (Cons c cs)
  have "fnmatch (c # cs) (CHR ''*'' # s) \<longleftrightarrow> c # cs = s \<or> (\<exists>v. cs = v @ s)"
    using Cons by (simp add: fnmatch_literal)
  also have "\<dots> \<longleftrightarrow> (\<exists>v. c # cs = v @ s)"
    by (auto simp: Cons_eq_append_conv)
  finally show ?case .
qed

lemma fnmatch_prefix:
  "CHR ''*'' \<notin> set p \<Longrightarrow> fnmatch name (p @ q) \<longleftrightarrow> (\<exists>r. name = p @ r \<and> fnmatch r q)"
proof (induction p arbitrary: name)
  case Nil
  then show ?case by simp
next
  case (Cons a p)
  then show ?case by (cases name) auto
qed

lemma fnmatch_pattern:
  "fnmatch name (METADATA_BASENAME @ ''_*'' @ META_SUFFIX) \<longleftrightarrow>
     (\<exists>v. name = METADATA_BASENAME @ ''_'' @ v @ META_SUFFIX)"
proof -
  have "fnmatch name ((METADATA_BASENAME @ ''_'') @ CHR ''*'' # META_SUFFIX) \<longleftrightarrow>
      (\<exists>r. name = (METADATA_BASENAME @ ''_'') @ r \<and> fnmatch r (CHR ''*'' # META_SUFFIX))"
    by (rule fnmatch_prefix) (simp add: METADATA_BASENAME_def)
  also have "\<dots> \<longleftrightarrow> (\<exists>r. name = (METADATA_BASENAME @ ''_'') @ r \<and> (\<exists>v. r = v @ META_SUFFIX))"
    using fnmatch_star [of META_SUFFIX] by (simp add: META_SUFFIX_def)
  finally show ?thesis by auto
qed

lemma rfind_dot_json: "rfind_dot (xs @ ''.json'') = Some (length xs)"
  by (simp add: rfind_dot_def)

lemma stem_json: "xs \<noteq> [] \<Longrightarrow> stem (xs @ ''.json'') = xs"
  by (simp add: stem_def rfind_dot_json)

lemma stem_metadata_name:
  "stem (METADATA_BASENAME @ ''_'' @ v @ META_SUFFIX) = METADATA_BASENAME @ ''_'' @ v"
  using stem_json [of "METADATA_BASENAME @ ''_'' @ v"]
  by (simp add: META_SUFFIX_def METADATA_BASENAME_def)

lemma last_sort_greatest:
  fixes xs :: "string list"
  assumes "xs \<noteq> []"
  shows "last (sort xs) \<in> set xs \<and> (\<forall>x \<in> set xs. x \<le> last (sort xs))"
proof -
  have ne: "sort xs \<noteq> []" using assms by (metis length_sort length_0_conv)
  then obtain ys y where s: "sort xs = ys @ [y]" by (cases "sort xs" rule: rev_cases) auto
  have "sorted (sort xs)" by simp
  then have "sorted (ys @ [y])" using s by simp
  then have "\<forall>x \<in> set ys. x \<le> y" by (simp add: sorted_append)
  moreover have "set (sort xs) = set xs" by simp
  then have "set xs = set ys \<union> {y}" using s by simp
  ultimately show ?thesis using s by auto
qed

lemma discover_result:
  assumes "cands = filter (\<lambda>name. fnmatch name (METADATA_BASENAME @ ''_*'' @ META_SUFFIX)) (listdir d dir)"
  shows "fst (discover_latest_version d dir w) =
     (if cands = [] then
        Inl (FileNotFoundError (No_metadata_files_found dir (METADATA_BASENAME @ ''_*'' @ META_SUFFIX)))
      else Inr (drop (length (METADATA_BASENAME @ ''_'')) (stem (last (sort cands)))))"
proof -
  have step: "fst (discover_latest_version d dir w) =
     (if sort cands = [] then
        Inl (FileNotFoundError (No_metadata_files_found dir (METADATA_BASENAME @ ''_*'' @ META_SUFFIX)))
      else if \<not> startswith (stem (last (sort cands))) (METADATA_BASENAME @ ''_'') then
        Inl (ValueError (Unexpected_metadata_filename (last (sort cands)) (METADATA_BASENAME @ ''_'')))
      else Inr (drop (length (METADATA_BASENAME @ ''_'')) (stem (last (sort cands)))))"
    by (simp add: discover_latest_version_def Let_def assms)
  have empty: "sort cands = [] \<longleftrightarrow> cands = []"
    by (metis length_sort length_0_conv)
  show ?thesis
  proof (cases "cands = []")
    case True
    then show ?thesis by (simp add: step)
  next
    case False
    then have "last (sort cands) \<in> set cands" using last_sort_greatest by blast
    then have "fnmatch (last (sort cands)) (METADATA_BASENAME @ ''_*'' @ META_SUFFIX)"
      by (simp add: assms)
    then obtain v where v: "last (sort cands) = METADATA_BASENAME @ ''_'' @ v @ META_SUFFIX"
      using fnmatch_pattern by blast
    have "startswith (stem (last (sort cands))) (METADATA_BASENAME @ ''_'')"
      unfolding v stem_metadata_name by (simp add: startswith_def)
    then show ?thesis
      using False empty by (simp only: step if_False not_True_eq_False simp_thms)
  qed
qed


text \<open>
  Claim C3.  Version discovery raises its FileNotFoundError exactly when no name of the
  directory matches the pattern \<^verbatim>\<open>cyber_ids_metadata_*.json\<close>.  Otherwise it returns the
  version of a matching name that is the greatest of the matching names in the
  lexicographic order: the stem of that name without the prefix, which is the part of the
  name between the prefix and the suffix.
\<close>

theorem discover_latest_version_greatest:
  "(fst (discover_latest_version d dir w) =
      Inl (FileNotFoundError
        (No_metadata_files_found dir (METADATA_BASENAME @ ''_*'' @ META_SUFFIX))) \<longleftrightarrow>
    (\<forall>n \<in> set (listdir d dir). \<not> fnmatch n (METADATA_BASENAME @ ''_*'' @ META_SUFFIX))) \<and>
   ((\<exists>n \<in> set (listdir d dir). fnmatch n (METADATA_BASENAME @ ''_*'' @ META_SUFFIX)) \<longrightarrow>
    (\<exists>n \<in> set (listdir d dir). \<exists>v.
       fnmatch n (METADATA_BASENAME @ ''_*'' @ META_SUFFIX) \<and>
       (\<forall>m \<in> set (listdir d dir).
          fnmatch m (METADATA_BASENAME @ ''_*'' @ META_SUFFIX) \<longrightarrow> m \<le> n) \<and>
       n = METADATA_BASENAME @ ''_'' @ v @ META_SUFFIX \<and>
       v = drop (length (METADATA_BASENAME @ ''_'')) (stem n) \<and>
       fst (discover_latest_version d dir w) = Inr v))"
proof -
  define cands where
    "cands = filter (\<lambda>name. fnmatch name (METADATA_BASENAME @ ''_*'' @ META_SUFFIX)) (listdir d dir)"
  note r = discover_result [OF cands_def, of w]
  have none: "cands = [] \<longleftrightarrow>
      (\<forall>n \<in> set (listdir d dir). \<not> fnmatch n (METADATA_BASENAME @ ''_*'' @ META_SUFFIX))"
    by (auto simp: cands_def filter_empty_conv)
  have "\<exists>n \<in> set (listdir d dir). \<exists>v.
       fnmatch n (METADATA_BASENAME @ ''_*'' @ META_SUFFIX) \<and>
       (\<forall>m \<in> set (listdir d dir).
          fnmatch m (METADATA_BASENAME @ ''_*'' @ META_SUFFIX) \<longrightarrow> m \<le> n) \<and>
       n = METADATA_BASENAME @ ''_'' @ v @ META_SUFFIX \<and>
       v = drop (length (METADATA_BASENAME @ ''_'')) (stem n) \<and>
       fst (discover_latest_version d dir w) = Inr v"
    if "cands \<noteq> []"
  proof -
    define n where "n = last (sort cands)"
    from last_sort_greatest [OF that]
    have n: "n \<in> set cands" and greatest: "\<forall>x \<in> set cands. x \<le> n"
      by (simp_all add: n_def)
    from n have m: "fnmatch n (METADATA_BASENAME @ ''_*'' @ META_SUFFIX)"
      and l: "n \<in> set (listdir d dir)"
      by (simp_all add: cands_def)
    from m obtain v where v: "n = METADATA_BASENAME @ ''_'' @ v @ META_SUFFIX"
      using fnmatch_pattern by blast
    have "stem n = METADATA_BASENAME @ ''_'' @ v"
      unfolding v by (rule stem_metadata_name)
    then have d: "v = drop (length (METADATA_BASENAME @ ''_'')) (stem n)"
      by simp
    have "fst (discover_latest_version d dir w) = Inr v"
      using that by (simp only: r if_False n_def [symmetric] d [symmetric])
    moreover have "\<forall>m \<in> set (listdir d dir).
        fnmatch m (METADATA_BASENAME @ ''_*'' @ META_SUFFIX) \<longrightarrow> m \<le> n"
      using greatest by (simp add: cands_def)
    ultimately show ?thesis
      using l m v d by blast
  qed
  moreover have "fst (discover_latest_version d dir w) =
      Inl (FileNotFoundError
        (No_metadata_files_found dir (METADATA_BASENAME @ ''_*'' @ META_SUFFIX))) \<longleftrightarrow>
      cands = []"
    by (simp add: r)
  ultimately show ?thesis
    using none by blast
qed

theorem discover_latest_version_greatest_witness:
  "listdir example_disk (META_DIR example_disk) =
     [''cyber_ids_metadata_20240101-0000.json'', ''cyber_ids_metadata_20240601-1200.json'',
      ''notes.json'', ''cyber_ids_metadata_20230101-0000.json''] \<and>
   fst (discover_latest_version example_disk (META_DIR example_disk) example_world) =
     Inr ''20240601-1200'' \<and>
   fst (discover_latest_version example_disk_no_metadata (META_DIR example_disk_no_metadata)
     example_world) =
     Inl (FileNotFoundError (No_metadata_files_found ''/srv/cyber_ids/artifacts/meta''
       ''cyber_ids_metadata_*.json''))"
proof -
  have l: "listdir example_disk (META_DIR example_disk) =
     [''cyber_ids_metadata_20240101-0000.json'', ''cyber_ids_metadata_20240601-1200.json'',
      ''notes.json'', ''cyber_ids_metadata_20230101-0000.json'']"
    by (simp add: example_disk_def)
  have a: "fst (discover_latest_version example_disk (META_DIR example_disk) example_world) =
     Inr ''20240601-1200''"
    by (simp add: example_defs config_defs loading_defs less_eq_char_def less_char_def)
  have none: "\<forall>n \<in> set (listdir example_disk_no_metadata (META_DIR example_disk_no_metadata)).
      \<not> fnmatch n (METADATA_BASENAME @ ''_*'' @ META_SUFFIX)"
    by (simp add: example_disk_no_metadata_def example_disk_def config_defs)
  have dir: "META_DIR example_disk_no_metadata = ''/srv/cyber_ids/artifacts/meta''"
    and pat: "METADATA_BASENAME @ ''_*'' @ META_SUFFIX = ''cyber_ids_metadata_*.json''"
    by (simp_all add: example_disk_no_metadata_def example_disk_def config_defs)
  from discover_latest_version_greatest [of example_disk_no_metadata
      "META_DIR example_disk_no_metadata" example_world] none
  have "fst (discover_latest_version example_disk_no_metadata (META_DIR example_disk_no_metadata)
     example_world) =
     Inl (FileNotFoundError (No_metadata_files_found (META_DIR example_disk_no_metadata)
       (METADATA_BASENAME @ ''_*'' @ META_SUFFIX)))"
    by blast
  with l a show ?thesis
    by (simp only: dir pat simp_thms)
qed

text \<open>
  Claim C10.  Every name that matches the pattern has a stem that starts with the
  prefix \<^verbatim>\<open>cyber_ids_metadata_\<close>, so version discovery never raises the ValueError of
  line 54: when it fails, it fails with the FileNotFoundError of line 47.
\<close>

theorem unexpected_filename_unreachable:
  "(fnmatch n (METADATA_BASENAME @ ''_*'' @ META_SUFFIX) \<longrightarrow>
      startswith (stem n) (METADATA_BASENAME @ ''_'')) \<and>
   fst (discover_latest_version d dir w) \<noteq> Inl (ValueError m) \<and>
   (\<forall>e. fst (discover_latest_version d dir w) = Inl e \<longrightarrow>
      e = FileNotFoundError
        (No_metadata_files_found dir (METADATA_BASENAME @ ''_*'' @ META_SUFFIX)))"
proof -
  have "startswith (stem n) (METADATA_BASENAME @ ''_'')"
    if "fnmatch n (METADATA_BASENAME @ ''_*'' @ META_SUFFIX)"
  proof -
    from that obtain v where "n = METADATA_BASENAME @ ''_'' @ v @ META_SUFFIX"
      using fnmatch_pattern by blast
    then show ?thesis
      by (simp only: stem_metadata_name) (simp add: startswith_def)
  qed
  moreover have "e = FileNotFoundError
        (No_metadata_files_found dir (METADATA_BASENAME @ ''_*'' @ META_SUFFIX))"
    if "fst (discover_latest_version d dir w) = Inl e" for e
    using that discover_result [OF refl, of d dir w] by (auto split: if_splits)
  ultimately show ?thesis by auto
qed

theorem unexpected_filename_unreachable_witness:
  "fnmatch ''cyber_ids_metadata_20240601-1200.json'' (METADATA_BASENAME @ ''_*'' @ META_SUFFIX) \<and>
   startswith (stem ''cyber_ids_metadata_20240601-1200.json'') (METADATA_BASENAME @ ''_'') \<and>
   fst (discover_latest_version example_disk_no_metadata
     (META_DIR example_disk_no_metadata) example_world) =
     Inl (FileNotFoundError (No_metadata_files_found (META_DIR example_disk_no_metadata)
       (METADATA_BASENAME @ ''_*'' @ META_SUFFIX)))"
proof -
  have f: "fnmatch ''cyber_ids_metadata_20240601-1200.json''
      (METADATA_BASENAME @ ''_*'' @ META_SUFFIX)"
    by (simp add: config_defs)
  have e: "\<exists>e. fst (discover_latest_version example_disk_no_metadata
        (META_DIR example_disk_no_metadata) example_world) = Inl e"
    by (simp add: example_disk_no_metadata_def example_defs config_defs loading_defs)
  from unexpected_filename_unreachable [of "''cyber_ids_metadata_20240601-1200.json''"
      example_disk_no_metadata "META_DIR example_disk_no_metadata" example_world] f e
  show ?thesis by blast
qed

section \<open>Facts about the conversions\<close>

lemma unat32_bound: "unat (w::float32) < 2 ^ 32"
  using unsigned_less [of w, where ?'a = nat] by simp

lemma unat64_bound: "unat (w::float64) < 2 ^ 64"
  using unsigned_less [of w, where ?'a = nat] by simp

lemma sign32_le: "sign32 w \<le> 1"
  using unat32_bound [of w] by (simp add: sign32_def less_mult_imp_div_less)

lemma sign64_le: "sign64 w \<le> 1"
  using unat64_bound [of w] by (simp add: sign64_def less_mult_imp_div_less)

lemma frac32_less: "frac32 w < 2 ^ 23"
  by (simp add: frac32_def)

lemma frac64_less: "frac64 w < 2 ^ 52"
  by (simp add: frac64_def)

lemma exp32_less: "exp32 w < 256"
  by (simp add: exp32_def)

lemma exp64_less: "exp64 w < 2048"
  by (simp add: exp64_def)

lemma split_fields:
  fixes n :: nat
  shows "n = n div (a * b) * (a * b) + n div a mod b * a + n mod a"
proof -
  have "n div a = n div a div b * b + n div a mod b"
    by simp
  then have "n div a * a = n div (a * b) * (a * b) + n div a mod b * a"
    by (metis add_mult_distrib div_mult2_eq mult.assoc mult.commute)
  then show ?thesis
    by (metis div_mult_mod_eq)
qed

lemma fields32: "unat w = sign32 w * 2 ^ 31 + exp32 w * 2 ^ 23 + frac32 w"
  unfolding sign32_def exp32_def frac32_def
  using split_fields [of "unat w" "2 ^ 23" "2 ^ 8"] by simp

lemma fields64: "unat w = sign64 w * 2 ^ 63 + exp64 w * 2 ^ 52 + frac64 w"
  unfolding sign64_def exp64_def frac64_def
  using split_fields [of "unat w" "2 ^ 52" "2 ^ 11"] by simp

lemma pack32_fields: "pack32 (sign32 w) (exp32 w) (frac32 w) = w"
  unfolding pack32_def fields32 [symmetric] by simp

lemma unat_pack32:
  assumes "s \<le> 1" "e * 2 ^ 23 + f < 2 ^ 31"
  shows "unat (pack32 s e f) = s * 2 ^ 31 + e * 2 ^ 23 + f"
proof -
  have "s * 2 ^ 31 + e * 2 ^ 23 + f < 2 ^ 32"
    using assms by (cases "s = 0") auto
  then show ?thesis
    unfolding pack32_def by (simp only: unat_of_nat) simp
qed

lemma unat_pack64:
  assumes "s \<le> 1" "e * 2 ^ 52 + f < 2 ^ 63"
  shows "unat (pack64 s e f) = s * 2 ^ 63 + e * 2 ^ 52 + f"
proof -
  have "s * 2 ^ 63 + e * 2 ^ 52 + f < 2 ^ 64"
    using assms by (cases "s = 0") auto
  then show ?thesis
    unfolding pack64_def by (simp only: unat_of_nat) simp
qed

lemma exp32_pack32:
  assumes "s \<le> 1" "e * 2 ^ 23 + f < 2 ^ 31"
  shows "exp32 (pack32 s e f) = e + f div 2 ^ 23"
proof -
  have "(s * 2 ^ 31 + e * 2 ^ 23 + f) div 2 ^ 23 = s * 2 ^ 8 + (e + f div 2 ^ 23)"
    by simp
  moreover have "e + f div 2 ^ 23 < 2 ^ 8"
    using assms(2) by (simp add: less_mult_imp_div_less)
  ultimately show ?thesis
    by (simp add: exp32_def unat_pack32 [OF assms])
qed

lemma frac32_pack32:
  assumes "s \<le> 1" "e * 2 ^ 23 + f < 2 ^ 31"
  shows "frac32 (pack32 s e f) = f mod 2 ^ 23"
proof -
  have "s * 2 ^ 31 + e * 2 ^ 23 + f = f + (s * 2 ^ 8 + e) * 2 ^ 23"
    by simp
  then have "(s * 2 ^ 31 + e * 2 ^ 23 + f) mod 2 ^ 23 = f mod 2 ^ 23"
    by (simp only: mod_mult_self1)
  then show ?thesis
    by (simp add: frac32_def unat_pack32 [OF assms])
qed


lemma sign32_pack32:
  assumes "s \<le> 1" "e * 2 ^ 23 + f < 2 ^ 31"
  shows "sign32 (pack32 s e f) = s"
  using assms by (simp add: sign32_def unat_pack32 [OF assms])

lemma exp64_pack64:
  assumes "s \<le> 1" "e * 2 ^ 52 + f < 2 ^ 63"
  shows "exp64 (pack64 s e f) = e + f div 2 ^ 52"
proof -
  have "(s * 2 ^ 63 + e * 2 ^ 52 + f) div 2 ^ 52 = s * 2 ^ 11 + (e + f div 2 ^ 52)"
    by simp
  moreover have "e + f div 2 ^ 52 < 2 ^ 11"
    using assms(2) by (simp add: less_mult_imp_div_less)
  ultimately show ?thesis
    by (simp add: exp64_def unat_pack64 [OF assms])
qed

lemma frac64_pack64:
  assumes "s \<le> 1" "e * 2 ^ 52 + f < 2 ^ 63"
  shows "frac64 (pack64 s e f) = f mod 2 ^ 52"
proof -
  have "s * 2 ^ 63 + e * 2 ^ 52 + f = f + (s * 2 ^ 11 + e) * 2 ^ 52"
    by simp
  then have "(s * 2 ^ 63 + e * 2 ^ 52 + f) mod 2 ^ 52 = f mod 2 ^ 52"
    by (simp only: mod_mult_self1)
  then show ?thesis
    by (simp add: frac64_def unat_pack64 [OF assms])
qed

lemma sign64_pack64:
  assumes "s \<le> 1" "e * 2 ^ 52 + f < 2 ^ 63"
  shows "sign64 (pack64 s e f) = s"
  using assms by (simp add: sign64_def unat_pack64 [OF assms])


lemma shift_right_jam_le: "shift_right_jam a n \<le> a"
proof (cases "a mod 2 ^ n = 0")
  case True
  then show ?thesis by (simp add: shift_right_jam_def Let_def)
next
  case False
  then obtain m where n: "n = Suc m" by (cases n) auto
  have "a \<noteq> 0" using False by (cases "a = 0") auto
  have "a div 2 ^ n = a div 2 div 2 ^ m"
    by (simp add: n div_mult2_eq)
  then have "a div 2 ^ n \<le> a div 2"
    by (simp add: div_le_dividend)
  moreover have "a div 2 + 1 \<le> a" using \<open>a \<noteq> 0\<close> by simp
  ultimately show ?thesis
    by (simp add: shift_right_jam_def Let_def)
qed

lemma round_pack_not_nan:
  assumes "s \<le> 1" "sig < 2 ^ 31"
  shows "exp32 (round_pack_to_f32 s e sig) = 255 \<longrightarrow> frac32 (round_pack_to_f32 s e sig) = 0"
proof (cases "0 \<le> e \<and> (253 < e \<or> (e = 253 \<and> 2 ^ 31 \<le> sig + 64))")
  case True
  then show ?thesis
    using assms(1) by (simp add: round_pack_to_f32_def frac32_pack32)
next
  case False
  define sig1 where "sig1 = (if e < 0 then shift_right_jam sig (nat (- e)) else sig)"
  define e1 where "e1 = (if e < 0 then 0 else nat e)"
  define sig2 where "sig2 = (sig1 + 64) div 128"
  define sig3 where "sig3 = (if sig1 mod 128 = 64 then sig2 - sig2 mod 2 else sig2)"
  define e2 where "e2 = (if sig3 = 0 then 0 else e1)"
  have r: "round_pack_to_f32 s e sig = pack32 s e2 sig3"
    unfolding round_pack_to_f32_def Let_def sig1_def e1_def sig2_def sig3_def e2_def
    by (simp only: False if_False)
  have "shift_right_jam sig n \<le> sig" for n
    by (rule shift_right_jam_le)
  then have s1: "sig1 < 2 ^ 31"
    using assms(2) by (auto simp: sig1_def intro: le_less_trans)
  have s3le: "sig3 \<le> sig2" by (simp add: sig3_def)
  have e1: "e1 \<le> 253" using False by (auto simp: e1_def)
  have bound: "e2 * 2 ^ 23 + sig3 < 255 * 2 ^ 23"
  proof (cases "e1 = 253")
    case True
    then have "e = 253" by (auto simp: e1_def split: if_splits)
    with False have "sig + 64 < 2 ^ 31" by simp
    moreover have "sig1 = sig" using \<open>e = 253\<close> by (simp add: sig1_def)
    ultimately have "sig2 < 2 ^ 24" by (simp add: sig2_def)
    with s3le True show ?thesis by (auto simp: e2_def)
  next
    case False
    with e1 have "e1 \<le> 252" by simp
    moreover have "sig2 \<le> 2 ^ 24" using s1 by (simp add: sig2_def)
    ultimately show ?thesis using s3le by (auto simp: e2_def)
  qed
  then have lt: "e2 * 2 ^ 23 + sig3 < 2 ^ 31" by simp
  have "(e2 * 2 ^ 23 + sig3) div 2 ^ 23 < 255"
    using bound by (simp add: less_mult_imp_div_less)
  then have "e2 + sig3 div 2 ^ 23 < 255" by simp
  then show ?thesis
    by (simp add: r exp32_pack32 [OF assms(1) lt])
qed

lemma shift_right_jam_less:
  assumes "a < 2 ^ (m + n)" "0 < m"
  shows "shift_right_jam a n < 2 ^ m"
proof -
  have q: "a div 2 ^ n < 2 ^ m"
    using assms(1) by (simp add: less_mult_imp_div_less power_add)
  moreover have "even (a div 2 ^ n) \<Longrightarrow> a div 2 ^ n + 1 < 2 ^ m"
  proof -
    assume ev: "even (a div 2 ^ n)"
    have "even ((2::nat) ^ m)" using assms(2) by simp
    with ev q show ?thesis
      by (metis Suc_eq_plus1 Suc_lessI even_Suc)
  qed
  ultimately show ?thesis
    by (simp add: shift_right_jam_def Let_def)
qed

lemma f64_to_f32_cases:
  assumes "exp64 x \<noteq> 2047"
  shows "f64_to_f32 x = pack32 (sign64 x) 0 0 \<or>
    f64_to_f32 x = round_pack_to_f32 (sign64 x) (int (exp64 x) - 897)
      (shift_right_jam (frac64 x) 22 + 2 ^ 30)"
  using assms unfolding f64_to_f32_def Let_def by (simp only: if_False) metis

lemma f64_to_f32_inf:
  assumes "exp64 x = 2047" "frac64 x = 0"
  shows "f64_to_f32 x = pack32 (sign64 x) 255 0"
  using assms unfolding f64_to_f32_def Let_def by simp

lemma pack32_zero_frac:
  assumes "s \<le> 1" "e < 256"
  shows "frac32 (pack32 s e 0) = 0" "exp32 (pack32 s e 0) = e"
proof -
  have lt: "e * 2 ^ 23 + 0 < (2::nat) ^ 31" using assms(2) by simp
  show "frac32 (pack32 s e 0) = 0" using frac32_pack32 [OF assms(1) lt] by simp
  show "exp32 (pack32 s e 0) = e" using exp32_pack32 [OF assms(1) lt] by simp
qed

lemma f64_to_f32_not_nan:
  assumes "\<not> isnan x"
  shows "\<not> isnan32 (f64_to_f32 x)"
proof (cases "exp64 x = 2047")
  case True
  with assms have "frac64 x = 0" by (simp add: isnan_def)
  then have "f64_to_f32 x = pack32 (sign64 x) 255 0"
    using True by (rule f64_to_f32_inf [rotated])
  then show ?thesis
    using pack32_zero_frac(1) [OF sign64_le, of 255 x] by (simp add: isnan32_def)
next
  case False
  have "shift_right_jam (frac64 x) 22 < 2 ^ 30"
    using shift_right_jam_less [of "frac64 x" 30 22] frac64_less [of x] by simp
  then have lt: "shift_right_jam (frac64 x) 22 + 2 ^ 30 < 2 ^ 31" by simp
  from f64_to_f32_cases [OF False] show ?thesis
  proof
    assume "f64_to_f32 x = pack32 (sign64 x) 0 0"
    then show ?thesis
      using pack32_zero_frac(1) [OF sign64_le, of 0 x] by (simp add: isnan32_def)
  next
    assume "f64_to_f32 x = round_pack_to_f32 (sign64 x) (int (exp64 x) - 897)
      (shift_right_jam (frac64 x) 22 + 2 ^ 30)"
    then show ?thesis
      using round_pack_not_nan [OF sign64_le lt, of x "int (exp64 x) - 897"]
      by (simp add: isnan32_def)
  qed
qed


lemma shift_right_jam_exact: "a mod 2 ^ n = 0 \<Longrightarrow> shift_right_jam a n = a div 2 ^ n"
  by (simp add: shift_right_jam_def)

lemma round_pack_exact_normal:
  assumes "0 \<le> e" "e \<le> 253" "m < 2 ^ 23"
  shows "round_pack_to_f32 s e ((m + 2 ^ 23) * 128) = pack32 s (nat e) (m + 2 ^ 23)"
proof -
  have "(m + 2 ^ 23) * 128 + 64 < 2 ^ 31" using assms(3) by simp
  then have c: "\<not> (0 \<le> e \<and> (253 < e \<or> (e = 253 \<and> 2 ^ 31 \<le> (m + 2 ^ 23) * 128 + 64)))"
    using assms(2) by simp
  have d: "((m + 2 ^ 23) * 128 + 64) div 128 = m + 2 ^ 23" by simp
  have "\<not> e < 0" using assms(1) by simp
  then show ?thesis
    unfolding round_pack_to_f32_def Let_def
    by (simp only: c if_False mod_mult_self2_is_0 d) simp
qed

lemma round_pack_exact_tiny:
  assumes "e < 0"
  shows "round_pack_to_f32 s e (f * 2 ^ nat (- e) * 128) = pack32 s 0 f"
proof -
  have c: "\<not> (0 \<le> e \<and> (253 < e \<or> (e = 253 \<and> 2 ^ 31 \<le> f * 2 ^ nat (- e) * 128 + 64)))"
    using assms by simp
  have "f * 2 ^ nat (- e) * 128 = f * 128 * 2 ^ nat (- e)" by simp
  then have j: "shift_right_jam (f * 2 ^ nat (- e) * 128) (nat (- e)) = f * 128"
    by (simp add: shift_right_jam_exact)
  have d: "(f * 128 + 64) div 128 = f" by simp
  show ?thesis
    unfolding round_pack_to_f32_def Let_def
    using assms by (simp only: c if_False if_True j mod_mult_self2_is_0 d) simp
qed

lemma subnormal_shift:
  assumes "0 < f" "f < 2 ^ 23"
  shows "1 \<le> count_leading_zeros32 f - 8 \<and> count_leading_zeros32 f - 8 \<le> 23 \<and>
    2 ^ 23 \<le> f * 2 ^ (count_leading_zeros32 f - 8) \<and>
    f * 2 ^ (count_leading_zeros32 f - 8) < 2 ^ 24"
proof -
  define k where "k = floorlog 2 f"
  have b: "2 ^ (k - 1) \<le> f" "f < 2 ^ k"
    using floorlog_bounds [of f 2] assms(1) by (simp_all add: k_def)
  have k1: "1 \<le> k" using assms(1) by (simp add: k_def floorlog_def)
  have k23: "k \<le> 23" using assms(2) by (simp add: k_def floorlog_le_iff)
  have sd: "count_leading_zeros32 f - 8 = 24 - k"
    by (simp add: count_leading_zeros32_def k_def)
  have "(2::nat) ^ 23 = 2 ^ (k - 1) * 2 ^ (24 - k)"
    using k1 k23 by (simp add: power_add [symmetric])
  moreover have "2 ^ (k - 1) * 2 ^ (24 - k) \<le> f * 2 ^ (24 - k)"
    using b(1) by (rule mult_le_mono1)
  ultimately have lo: "2 ^ 23 \<le> f * 2 ^ (24 - k)"
    by (simp only:)
  have "(2::nat) ^ 24 = 2 ^ k * 2 ^ (24 - k)"
    using k23 by (simp add: power_add [symmetric])
  moreover have "f * 2 ^ (24 - k) < 2 ^ k * 2 ^ (24 - k)"
    using b(2) by simp
  ultimately have hi: "f * 2 ^ (24 - k) < 2 ^ 24"
    by (simp only:)
  have "1 \<le> 24 - k" "24 - k \<le> 23" using k1 k23 by arith+
  then show ?thesis
    unfolding sd using lo hi by simp
qed


lemma f32_to_f64_normal:
  assumes "exp32 y \<noteq> 0" "exp32 y \<noteq> 255"
  shows "sign64 (f32_to_f64 y) = sign32 y" "exp64 (f32_to_f64 y) = exp32 y + 896"
    "frac64 (f32_to_f64 y) = frac32 y * 2 ^ 29"
proof -
  have x: "f32_to_f64 y = pack64 (sign32 y) (exp32 y + 896) (frac32 y * 2 ^ 29)"
    using assms by (simp add: f32_to_f64_def Let_def)
  have f: "frac32 y * 2 ^ 29 < 2 ^ 52"
    using frac32_less [of y] by simp
  have "(exp32 y + 896) * 2 ^ 52 < 1152 * 2 ^ 52"
    using exp32_less [of y] by simp
  with f have lt: "(exp32 y + 896) * 2 ^ 52 + frac32 y * 2 ^ 29 < 2 ^ 63"
    by simp
  show "sign64 (f32_to_f64 y) = sign32 y"
    unfolding x by (rule sign64_pack64 [OF sign32_le lt])
  show "exp64 (f32_to_f64 y) = exp32 y + 896"
    unfolding x using exp64_pack64 [OF sign32_le lt] f by simp
  show "frac64 (f32_to_f64 y) = frac32 y * 2 ^ 29"
    unfolding x using frac64_pack64 [OF sign32_le lt] f by simp
qed

lemma f32_to_f64_subnormal:
  assumes "exp32 y = 0" "frac32 y \<noteq> 0" "sd = count_leading_zeros32 (frac32 y) - 8"
  shows "sign64 (f32_to_f64 y) = sign32 y" "exp64 (f32_to_f64 y) = 897 - sd"
    "frac64 (f32_to_f64 y) = (frac32 y * 2 ^ sd - 2 ^ 23) * 2 ^ 29"
proof -
  have x: "f32_to_f64 y = pack64 (sign32 y) (896 - sd) (frac32 y * 2 ^ sd * 2 ^ 29)"
    using assms by (simp add: f32_to_f64_def Let_def)
  from subnormal_shift [of "frac32 y"] assms(2) frac32_less [of y]
  have sd: "1 \<le> sd" "sd \<le> 23" and g: "2 ^ 23 \<le> frac32 y * 2 ^ sd" "frac32 y * 2 ^ sd < 2 ^ 24"
    by (simp_all add: assms(3))
  define g where "g = frac32 y * 2 ^ sd"
  have g29: "g * 2 ^ 29 < 2 ^ 53" "2 ^ 52 \<le> g * 2 ^ 29"
    using g by (simp_all add: g_def)
  have "(896 - sd) * 2 ^ 52 \<le> 896 * 2 ^ 52" by simp
  with g29 have lt: "(896 - sd) * 2 ^ 52 + g * 2 ^ 29 < 2 ^ 63"
    by simp
  have dv: "g * 2 ^ 29 div 2 ^ 52 = 1"
    using g29 by (simp add: div_nat_eqI)
  have md: "g * 2 ^ 29 mod 2 ^ 52 = (g - 2 ^ 23) * 2 ^ 29"
  proof -
    have "g * 2 ^ 29 = (g - 2 ^ 23) * 2 ^ 29 + 2 ^ 52"
      using g(1) by (simp add: g_def diff_mult_distrib)
    moreover have "(g - 2 ^ 23) * 2 ^ 29 < 2 ^ 52"
      using g(2) by (simp add: g_def)
    ultimately show ?thesis
      by (metis mod_add_self2 mod_less)
  qed
  show "sign64 (f32_to_f64 y) = sign32 y"
    unfolding x g_def [symmetric] by (rule sign64_pack64 [OF sign32_le lt])
  show "exp64 (f32_to_f64 y) = 897 - sd"
    unfolding x g_def [symmetric] using exp64_pack64 [OF sign32_le lt] dv sd by simp
  show "frac64 (f32_to_f64 y) = (frac32 y * 2 ^ sd - 2 ^ 23) * 2 ^ 29"
    unfolding x g_def [symmetric] using frac64_pack64 [OF sign32_le lt] md by simp
qed

lemma f32_to_f64_zero:
  assumes "exp32 y = 0" "frac32 y = 0"
  shows "sign64 (f32_to_f64 y) = sign32 y" "exp64 (f32_to_f64 y) = 0"
    "frac64 (f32_to_f64 y) = 0"
proof -
  have x: "f32_to_f64 y = pack64 (sign32 y) 0 0"
    using assms by (simp add: f32_to_f64_def Let_def)
  have lt: "0 * 2 ^ 52 + 0 < (2::nat) ^ 63" by simp
  show "sign64 (f32_to_f64 y) = sign32 y"
    unfolding x by (rule sign64_pack64 [OF sign32_le lt])
  show "exp64 (f32_to_f64 y) = 0"
    unfolding x using exp64_pack64 [OF sign32_le lt] by simp
  show "frac64 (f32_to_f64 y) = 0"
    unfolding x using frac64_pack64 [OF sign32_le lt] by simp
qed

lemma f32_to_f64_finite:
  assumes "isfinite32 y"
  shows "isfinite (f32_to_f64 y)"
proof (cases "exp32 y = 0")
  case True
  show ?thesis
  proof (cases "frac32 y = 0")
    case True
    with \<open>exp32 y = 0\<close> show ?thesis
      by (simp add: isfinite_def f32_to_f64_zero)
  next
    case False
    with True show ?thesis
      by (simp add: isfinite_def f32_to_f64_subnormal(2) [OF True False refl])
  qed
next
  case False
  with assms have "exp32 y + 896 \<noteq> 2047"
    using exp32_less [of y] by simp
  with False assms show ?thesis
    by (simp add: isfinite_def isfinite32_def f32_to_f64_normal)
qed

lemma f64_to_f32_round_trip:
  assumes "isfinite32 y"
  shows "f64_to_f32 (f32_to_f64 y) = y"
proof -
  have e255: "exp32 y \<noteq> 255" using assms by (simp add: isfinite32_def)
  have "f64_to_f32 (f32_to_f64 y) = pack32 (sign32 y) (exp32 y) (frac32 y)"
  proof (cases "exp32 y = 0")
    case True
    show ?thesis
    proof (cases "frac32 y = 0")
      case True
      with \<open>exp32 y = 0\<close> show ?thesis
        by (simp add: f64_to_f32_def Let_def f32_to_f64_zero shift_right_jam_def)
    next
      case False
      define sd where "sd = count_leading_zeros32 (frac32 y) - 8"
      note fld = f32_to_f64_subnormal [OF True False sd_def]
      from subnormal_shift [of "frac32 y"] False frac32_less [of y]
      have sd: "1 \<le> sd" "sd \<le> 23"
        and g: "2 ^ 23 \<le> frac32 y * 2 ^ sd" "frac32 y * 2 ^ sd < 2 ^ 24"
        by (simp_all add: sd_def)
      have j: "shift_right_jam ((frac32 y * 2 ^ sd - 2 ^ 23) * 2 ^ 29) 22 =
          (frac32 y * 2 ^ sd - 2 ^ 23) * 128"
      proof -
        have "(frac32 y * 2 ^ sd - 2 ^ 23) * 2 ^ 29 = (frac32 y * 2 ^ sd - 2 ^ 23) * 128 * 2 ^ 22"
          by simp
        then show ?thesis
          by (simp only: shift_right_jam_exact mod_mult_self2_is_0 nonzero_mult_div_cancel_right)
            simp
      qed
      have sig: "(frac32 y * 2 ^ sd - 2 ^ 23) * 128 + 2 ^ 30 = frac32 y * 2 ^ nat (- (- int sd)) * 128"
        using g(1) by (simp add: diff_mult_distrib)
      have e: "int (897 - sd) - 897 = - int sd" using sd by simp
      have "- int sd < 0" using sd by simp
      from round_pack_exact_tiny [OF this, of "sign32 y" "frac32 y"]
      have "round_pack_to_f32 (sign32 y) (- int sd)
          ((frac32 y * 2 ^ sd - 2 ^ 23) * 128 + 2 ^ 30) = pack32 (sign32 y) 0 (frac32 y)"
        by (simp only: sig)
      moreover have "897 - sd \<noteq> 2047" "897 - sd \<noteq> 0" using sd by simp_all
      ultimately show ?thesis
        unfolding f64_to_f32_def Let_def fld j e by (simp add: True)
    qed
  next
    case False
    note fld = f32_to_f64_normal [OF False e255]
    have j: "shift_right_jam (frac32 y * 2 ^ 29) 22 = frac32 y * 128"
    proof -
      have "frac32 y * 2 ^ 29 = frac32 y * 128 * 2 ^ 22" by simp
      then show ?thesis
        by (simp only: shift_right_jam_exact mod_mult_self2_is_0 nonzero_mult_div_cancel_right)
          simp
    qed
    have sig: "frac32 y * 128 + 2 ^ 30 = (frac32 y + 2 ^ 23) * 128" by simp
    have e: "int (exp32 y + 896) - 897 = int (exp32 y) - 1" by simp
    have r: "0 \<le> int (exp32 y) - 1" "int (exp32 y) - 1 \<le> 253"
      using False e255 exp32_less [of y] by simp_all
    have n: "nat (int (exp32 y) - 1) = exp32 y - 1" by simp
    from round_pack_exact_normal [OF r frac32_less, of "sign32 y" y]
    have "round_pack_to_f32 (sign32 y) (int (exp32 y) - 1) (frac32 y * 128 + 2 ^ 30) =
        pack32 (sign32 y) (exp32 y - 1) (frac32 y + 2 ^ 23)"
      by (simp only: sig n)
    moreover have "pack32 (sign32 y) (exp32 y - 1) (frac32 y + 2 ^ 23) =
        pack32 (sign32 y) (exp32 y) (frac32 y)"
    proof -
      have "(exp32 y - 1) * 2 ^ 23 + 2 ^ 23 = exp32 y * 2 ^ 23"
        using False by (simp add: diff_mult_distrib)
      then have "sign32 y * 2 ^ 31 + (exp32 y - 1) * 2 ^ 23 + (frac32 y + 2 ^ 23) =
          sign32 y * 2 ^ 31 + exp32 y * 2 ^ 23 + frac32 y"
        by simp
      then show ?thesis
        unfolding pack32_def by (simp only:)
    qed
    moreover have "exp32 y + 896 \<noteq> 2047" "exp32 y + 896 \<noteq> 0"
      using exp32_less [of y] by simp_all
    ultimately show ?thesis
      unfolding f64_to_f32_def Let_def fld j e by simp
  qed
  then show ?thesis
    by (simp only: pack32_fields)
qed

section \<open>Facts about masks, assignment and reindexing\<close>

lemma isnan_not_finite: "isnan x \<Longrightarrow> \<not> isfinite x"
  by (simp add: isnan_def isfinite_def)

lemma not_finite_iff: "\<not> isfinite x \<longleftrightarrow> isnan x \<or> isinf x"
  by (auto simp: isnan_def isfinite_def isinf_def)

lemma isnan_nan: "isnan nan"
  by (simp add: isnan_def nan_def exp64_def frac64_def)

lemma mask_any_iff:
  "mask_any msk \<longleftrightarrow> (\<exists>i < length msk. \<exists>j < length (msk ! i). msk ! i ! j)"
  unfolding mask_any_def list_ex_iff by (metis in_set_conv_nth)

lemma mask_sum_zero_iff: "mask_sum msk = 0 \<longleftrightarrow> \<not> mask_any msk"
  by (auto simp: mask_sum_def mask_any_def list_ex_iff filter_empty_conv)

lemma mask_assign_map:
  "mask_assign arr (map (map P) arr) v = map (map (\<lambda>x. if P x then v else x)) arr"
proof -
  have "map (\<lambda>(x, b). if b then v else x) (zip row (map P row)) =
      map (\<lambda>x. if P x then v else x) row" for row :: "float64 list"
    by (simp add: zip_map2 map_zip_map2 zip_same_conv_map)
  then show ?thesis
    by (simp add: mask_assign_def zip_map2 zip_same_conv_map)
qed

lemma set_np_where:
  "set (np_where msk) = {(i, j). i < length msk \<and> j < length (msk ! i) \<and> msk ! i ! j}"
  by (auto simp: np_where_def set_zip)

lemma take_indices_all:
  "\<forall>j \<in> set js. j < length ms \<Longrightarrow> take_indices ms js = Inr (map (\<lambda>j. ms ! j) js)"
  by (induction js) auto

lemma take_indices_Inr:
  "take_indices ms js = Inr vs \<Longrightarrow> (\<forall>j \<in> set js. j < length ms) \<and> vs = map (\<lambda>j. ms ! j) js"
  by (induction js arbitrary: vs) (auto split: if_splits sum.splits)

lemma length_assign_at [simp]: "length (assign_at arr inds vs) = length arr"
  by (induction arr inds vs rule: assign_at.induct) auto

lemma length_assign_at_row:
  "length (assign_at arr inds vs ! i) = length (arr ! i)"
proof (induction arr inds vs rule: assign_at.induct)
  case (1 arr a b inds v vs)
  then show ?case
    by (cases "a < length arr"; cases "i = a") (auto simp: list_update_beyond)
qed auto

lemma assign_at_nth:
  assumes "i < length arr" "j < length (arr ! i)"
  shows "assign_at arr inds (map f inds) ! i ! j =
    (if (i, j) \<in> set inds then f (i, j) else arr ! i ! j)"
  using assms
proof (induction inds arbitrary: arr)
  case Nil
  then show ?case by simp
next
  case (Cons p inds)
  obtain a b where p: "p = (a, b)" by (cases p)
  let ?arr = "arr[a := (arr ! a)[b := f (a, b)]]"
  have l: "i < length ?arr" using Cons.prems by simp
  have r: "length (?arr ! i) = length (arr ! i)"
    using Cons.prems by (cases "i = a") auto
  have v: "?arr ! i ! j = (if i = a \<and> j = b then f (a, b) else arr ! i ! j)"
    using Cons.prems by (cases "i = a"; cases "j = b") auto
  from Cons.IH [of ?arr] l r Cons.prems
  have "assign_at ?arr inds (map f inds) ! i ! j =
      (if (i, j) \<in> set inds then f (i, j) else ?arr ! i ! j)"
    by simp
  then show ?case
    unfolding p using v by auto
qed


lemma impute_spec_finite:
  assumes "\<forall>row \<in> set arr. \<forall>x \<in> set row. isfinite x"
  shows "impute_spec ms arr = arr"
proof -
  have "map (\<lambda>j. if isfinite (row ! j) then row ! j else ms ! j) [0..<length row] = row"
    if "row \<in> set arr" for row
    using that assms by (intro nth_equalityI) auto
  then show ?thesis
    by (simp add: impute_spec_def map_idI)
qed

lemma not_mask_any_finite:
  "\<not> mask_any (map (map (\<lambda>v. \<not> isfinite v)) arr) \<longleftrightarrow>
     (\<forall>row \<in> set arr. \<forall>x \<in> set row. isfinite x)"
  by (auto simp: mask_any_def list_ex_iff)

lemma replace_non_finite:
  "(if mask_any (map (map (\<lambda>v. \<not> isfinite v)) arr)
    then mask_assign arr (map (map (\<lambda>v. \<not> isfinite v)) arr) nan else arr) =
   map (map (\<lambda>x. if \<not> isfinite x then nan else x)) arr"
proof (cases "mask_any (map (map (\<lambda>v. \<not> isfinite v)) arr)")
  case True
  then show ?thesis by (simp add: mask_assign_map)
next
  case False
  then have "\<forall>row \<in> set arr. \<forall>x \<in> set row. isfinite x"
    by (simp add: not_mask_any_finite)
  then have "map (map (\<lambda>x. if \<not> isfinite x then nan else x)) arr = arr"
    by (simp add: map_idI)
  with False show ?thesis by simp
qed

lemma nan_mask_eq:
  "map (map isnan) (map (map (\<lambda>x. if \<not> isfinite x then nan else x)) arr) =
   map (map (\<lambda>v. \<not> isfinite v)) arr"
proof -
  have "isnan (if \<not> isfinite x then nan else x) = (\<not> isfinite x)" for x
    using isnan_nan isnan_not_finite by auto
  then show ?thesis by (simp add: comp_def)
qed

lemma impute_assign:
  assumes "\<forall>row \<in> set arr. length row \<le> length ms"
  shows "(let inds = np_where (map (map (\<lambda>v. \<not> isfinite v)) arr)
          in case take_indices ms (map snd inds) of
               Inl e \<Rightarrow> Inl e
             | Inr vs \<Rightarrow>
                 Inr (assign_at (map (map (\<lambda>x. if \<not> isfinite x then nan else x)) arr) inds vs)) =
         Inr (impute_spec ms arr)"
proof -
  define inds where "inds = np_where (map (map (\<lambda>v. \<not> isfinite v)) arr)"
  define arr1 where "arr1 = map (map (\<lambda>x. if \<not> isfinite x then nan else x)) arr"
  have mem: "(i, j) \<in> set inds \<longleftrightarrow> i < length arr \<and> j < length (arr ! i) \<and> \<not> isfinite (arr ! i ! j)"
    for i j
    by (auto simp: inds_def set_np_where)
  have "\<forall>j \<in> set (map snd inds). j < length ms"
  proof
    fix j assume "j \<in> set (map snd inds)"
    then obtain i where "(i, j) \<in> set inds" by auto
    then have "i < length arr" "j < length (arr ! i)" by (simp_all add: mem)
    moreover from \<open>i < length arr\<close> have "arr ! i \<in> set arr" by simp
    with assms have "length (arr ! i) \<le> length ms" by blast
    ultimately show "j < length ms" by simp
  qed
  then have t: "take_indices ms (map snd inds) = Inr (map (\<lambda>p. ms ! snd p) inds)"
    by (simp add: take_indices_all comp_def)
  have "assign_at arr1 inds (map (\<lambda>p. ms ! snd p) inds) = impute_spec ms arr"
  proof (rule nth_equalityI)
    show "length (assign_at arr1 inds (map (\<lambda>p. ms ! snd p) inds)) = length (impute_spec ms arr)"
      by (simp add: arr1_def impute_spec_def)
  next
    fix i assume "i < length (assign_at arr1 inds (map (\<lambda>p. ms ! snd p) inds))"
    then have i: "i < length arr" by (simp add: arr1_def)
    show "assign_at arr1 inds (map (\<lambda>p. ms ! snd p) inds) ! i = impute_spec ms arr ! i"
    proof (rule nth_equalityI)
      show "length (assign_at arr1 inds (map (\<lambda>p. ms ! snd p) inds) ! i) =
          length (impute_spec ms arr ! i)"
        using i by (simp add: length_assign_at_row arr1_def impute_spec_def)
    next
      fix j assume "j < length (assign_at arr1 inds (map (\<lambda>p. ms ! snd p) inds) ! i)"
      then have j: "j < length (arr ! i)"
        using i by (simp add: length_assign_at_row arr1_def)
      have "assign_at arr1 inds (map (\<lambda>p. ms ! snd p) inds) ! i ! j =
          (if (i, j) \<in> set inds then ms ! j else arr1 ! i ! j)"
        using assign_at_nth [where arr = arr1 and f = "\<lambda>p. ms ! snd p" and inds = inds and i = i and j = j] i j
        by (simp add: arr1_def)
      also have "\<dots> = (if isfinite (arr ! i ! j) then arr ! i ! j else ms ! j)"
        using i j by (simp add: mem arr1_def)
      also have "\<dots> = impute_spec ms arr ! i ! j"
        using i j by (simp add: impute_spec_def)
      finally show "assign_at arr1 inds (map (\<lambda>p. ms ! snd p) inds) ! i ! j =
          impute_spec ms arr ! i ! j" .
    qed
  qed
  with t show ?thesis
    by (simp add: inds_def [symmetric] arr1_def [symmetric] Let_def)
qed


lemma apply_sanitizer_success:
  assumes "reindex X (columns s) = Inr Xn"
    and "\<forall>row \<in> set (df_values Xn). length row \<le> length (medians s)"
    and "arr = map (map astype_float64) (df_values Xn)"
    and "nf = map (map (\<lambda>v. \<not> isfinite v)) arr"
  shows "apply_sanitizer X s name =
    ((if mask_any nf then [WARN name (mask_sum nf), INFO name (mask_sum nf)] else []),
     Inr \<lparr>df_index = df_index X, df_columns = columns s,
          df_values = map (map (\<lambda>v. Float32 (f64_to_f32 v))) (impute_spec (medians s) arr)\<rparr>)"
proof -
  have len: "\<forall>row \<in> set arr. length row \<le> length (medians s)"
    using assms(2) by (auto simp: assms(3))
  have u: "apply_sanitizer X s name =
    (let out1 = (if mask_any nf then [WARN name (mask_sum nf)] else []);
         arr1 = map (map (\<lambda>x. if \<not> isfinite x then nan else x)) arr;
         out2 = (if mask_any nf then out1 @ [INFO name (mask_sum nf)] else out1);
         arr2 = (if mask_any nf then
                   (let inds = np_where nf
                    in case take_indices (medians s) (map snd inds) of
                         Inl e \<Rightarrow> Inl e
                       | Inr vs \<Rightarrow> Inr (assign_at arr1 inds vs))
                 else Inr arr1)
     in case arr2 of
          Inl e \<Rightarrow> (out2, Inl e)
        | Inr a \<Rightarrow>
            (out2, Inr \<lparr>df_index = df_index X, df_columns = columns s,
                         df_values = map (map (\<lambda>v. Float32 (f64_to_f32 v))) a\<rparr>))"
    unfolding apply_sanitizer_def assms(1) sum.case Let_def assms(3) [symmetric]
      assms(4) [symmetric]
    unfolding assms(4) replace_non_finite nan_mask_eq ..
  show ?thesis
  proof (cases "mask_any nf")
    case True
    then show ?thesis
      unfolding u using impute_assign [OF len] by (simp add: Let_def assms(4))
  next
    case False
    then have "\<forall>row \<in> set arr. \<forall>x \<in> set row. isfinite x"
      by (simp add: assms(4) not_mask_any_finite)
    then have "impute_spec (medians s) arr = arr"
      and "map (map (\<lambda>x. if \<not> isfinite x then nan else x)) arr = arr"
      by (simp_all add: impute_spec_finite map_idI)
    with False show ?thesis
      unfolding u by (simp add: Let_def)
  qed
qed

lemma get_indexer_None: "get_indexer labels c = None \<longleftrightarrow> c \<notin> set labels"
  by (induction labels) auto

lemma get_indexer_Some:
  "get_indexer labels c = Some k \<Longrightarrow> k < length labels \<and> labels ! k = c"
  by (induction labels arbitrary: k) (auto split: if_splits)

lemma get_indexer_nth:
  "distinct labels \<Longrightarrow> j < length labels \<Longrightarrow> get_indexer labels (labels ! j) = Some j"
proof (induction labels arbitrary: j)
  case Nil
  then show ?case by simp
next
  case (Cons a labels)
  then show ?case by (cases j) auto
qed

lemma take_column_same:
  assumes "distinct labels" "length row = length labels"
  shows "map (take_column labels row) labels = row"
  using assms by (intro nth_equalityI) (simp_all add: take_column_def get_indexer_nth)

lemma rectangular_row:
  "rectangular X \<Longrightarrow> row \<in> set (df_values X) \<Longrightarrow> length row = length (df_columns X)"
  by (simp add: rectangular_def list_all_iff)

lemma reindex_same: "df_columns X = cs \<Longrightarrow> reindex X cs = Inr X"
  by (simp add: reindex_def)

lemma reindex_success:
  assumes "rectangular X" "distinct (df_columns X)"
  shows "reindex X cs =
    Inr \<lparr>df_index = df_index X, df_columns = cs,
         df_values = map (\<lambda>row. map (take_column (df_columns X) row) cs) (df_values X)\<rparr>"
proof (cases "df_columns X = cs")
  case True
  have "map (\<lambda>row. map (take_column (df_columns X) row) (df_columns X)) (df_values X) = df_values X"
    using assms by (intro map_idI take_column_same) (simp_all add: rectangular_row)
  with True show ?thesis
    by (simp add: reindex_def)
next
  case False
  with assms(2) show ?thesis by (simp add: reindex_def)
qed

lemma sanitized_cells:
  assumes "rectangular X" "distinct (df_columns X)"
    and "length (columns s) \<le> length (medians s)"
  shows "\<exists>out T. apply_sanitizer X s name = (out, Inr T) \<and>
    df_columns T = columns s \<and> df_index T = df_index X \<and>
    length (df_values T) = length (df_index X) \<and>
    (\<forall>i < length (df_index X).
       length (df_values T ! i) = length (columns s) \<and>
       (\<forall>j < length (columns s).
          df_values T ! i ! j =
            Float32 (f64_to_f32
              (let v = astype_float64 (take_column (df_columns X) (df_values X ! i) (columns s ! j))
               in if isfinite v then v else medians s ! j))))"
proof -
  define Xn where "Xn = \<lparr>df_index = df_index X, df_columns = columns s,
         df_values = map (\<lambda>row. map (take_column (df_columns X) row) (columns s)) (df_values X)\<rparr>"
  define arr where "arr = map (map astype_float64) (df_values Xn)"
  define nf where "nf = map (map (\<lambda>v. \<not> isfinite v)) arr"
  define T where "T = \<lparr>df_index = df_index X, df_columns = columns s,
          df_values = map (map (\<lambda>v. Float32 (f64_to_f32 v))) (impute_spec (medians s) arr)\<rparr>"
  have r: "reindex X (columns s) = Inr Xn"
    unfolding Xn_def by (rule reindex_success [OF assms(1,2)])
  have "\<forall>row \<in> set (df_values Xn). length row \<le> length (medians s)"
    using assms(3) by (auto simp: Xn_def)
  from apply_sanitizer_success [OF r this arr_def nf_def, of name]
  have a: "apply_sanitizer X s name =
      ((if mask_any nf then [WARN name (mask_sum nf), INFO name (mask_sum nf)] else []), Inr T)"
    by (simp add: T_def)
  have n: "length (df_values X) = length (df_index X)"
    using assms(1) by (simp add: rectangular_def)
  have cell: "length (df_values T ! i) = length (columns s) \<and>
       (\<forall>j < length (columns s).
          df_values T ! i ! j =
            Float32 (f64_to_f32
              (let v = astype_float64 (take_column (df_columns X) (df_values X ! i) (columns s ! j))
               in if isfinite v then v else medians s ! j)))"
    if "i < length (df_index X)" for i
    using that n by (simp add: T_def impute_spec_def arr_def Xn_def Let_def)
  have "df_columns T = columns s" "df_index T = df_index X"
    "length (df_values T) = length (df_index X)"
    using n by (simp_all add: T_def impute_spec_def arr_def Xn_def)
  with a cell show ?thesis by blast
qed

section \<open>Claims about the sanitizer\<close>

lemmas sanitizer_examples =
  example_ab_def example_dirty_def example_clean_def example_overflow_def
  example_bundle_diverging_def example_request_https_def example_sanitizer_diverging_def
  example_disk_diverging_def example_echo_model_def example_model_f32_def
  example_bundle_f32_def example_bundle_echo_def example_scores_def

text \<open>
  Claim C1.  For a rectangular table with distinct column labels and a sanitizer with as
  many medians as columns, \<^verbatim>\<open>apply_sanitizer\<close> returns a table with the columns of the
  sanitizer in their order and the row index of the input.  The cell at row \<open>i\<close> and
  column \<open>j\<close> is the median \<open>j\<close> cast to binary32 when the column is absent from the input,
  or when the input value there is a NaN or an infinity; otherwise it is the input value
  cast to binary32.  Columns of the input that the sanitizer does not list do not occur.
\<close>

theorem apply_sanitizer_table:
  assumes "rectangular X" "distinct (df_columns X)"
    and "length (medians s) = length (columns s)"
  shows "\<exists>out T. apply_sanitizer X s name = (out, Inr T) \<and>
    df_columns T = columns s \<and> df_index T = df_index X \<and> rectangular T \<and>
    (\<forall>i < length (df_index X). \<forall>j < length (columns s).
       (columns s ! j \<notin> set (df_columns X) \<longrightarrow>
          df_values T ! i ! j = Float32 (f64_to_f32 (medians s ! j))) \<and>
       (\<forall>k < length (df_columns X). df_columns X ! k = columns s ! j \<longrightarrow>
          df_values T ! i ! j =
            Float32 (f64_to_f32
              (let v = astype_float64 (df_values X ! i ! k)
               in if isnan v \<or> isinf v then medians s ! j else v))))"
proof -
  from sanitized_cells [OF assms(1,2), of s name] assms(3)
  obtain out T where a: "apply_sanitizer X s name = (out, Inr T)"
    and c: "df_columns T = columns s" and x: "df_index T = df_index X"
    and n: "length (df_values T) = length (df_index X)"
    and cells: "\<And>i. i < length (df_index X) \<Longrightarrow>
       length (df_values T ! i) = length (columns s) \<and>
       (\<forall>j < length (columns s).
          df_values T ! i ! j =
            Float32 (f64_to_f32
              (let v = astype_float64 (take_column (df_columns X) (df_values X ! i) (columns s ! j))
               in if isfinite v then v else medians s ! j)))"
    by auto
  have rect: "rectangular T"
    unfolding rectangular_def list_all_iff
  proof (intro conjI ballI)
    show "length (df_values T) = length (df_index T)" using n x by simp
  next
    fix row assume "row \<in> set (df_values T)"
    then obtain i where "i < length (df_values T)" "row = df_values T ! i"
      by (auto simp: in_set_conv_nth)
    then show "length row = length (df_columns T)"
      using cells [of i] n c by simp
  qed
  have absent: "df_values T ! i ! j = Float32 (f64_to_f32 (medians s ! j))"
    if "i < length (df_index X)" "j < length (columns s)" "columns s ! j \<notin> set (df_columns X)"
    for i j
  proof -
    from that(3) have "take_column (df_columns X) (df_values X ! i) (columns s ! j) = Float64 nan"
      by (simp add: take_column_def get_indexer_None [THEN iffD2])
    then show ?thesis
      using cells [OF that(1)] that(2) isnan_nan isnan_not_finite by (simp add: Let_def)
  qed
  have present: "df_values T ! i ! j =
            Float32 (f64_to_f32
              (let v = astype_float64 (df_values X ! i ! k)
               in if isnan v \<or> isinf v then medians s ! j else v))"
    if "i < length (df_index X)" "j < length (columns s)" "k < length (df_columns X)"
      "df_columns X ! k = columns s ! j"
    for i j k
  proof -
    have "get_indexer (df_columns X) (columns s ! j) = Some k"
      using get_indexer_nth [OF assms(2) that(3)] that(4) by simp
    then have "take_column (df_columns X) (df_values X ! i) (columns s ! j) = df_values X ! i ! k"
      by (simp add: take_column_def)
    then show ?thesis
      using cells [OF that(1)] that(2) by (simp add: Let_def not_finite_iff [symmetric])
  qed
  from a c x rect absent present show ?thesis by blast
qed

theorem apply_sanitizer_table_witness:
  "rectangular example_dirty \<and> distinct (df_columns example_dirty) \<and>
   apply_sanitizer example_dirty example_ab ''X_request'' =
     ([WARN ''X_request'' 2, INFO ''X_request'' 2],
      Inr \<lparr>df_index = [0, 1], df_columns = [''a'', ''b''],
           df_values = [[Float32 0x3F800000, Float32 0x40A00000],
                        [Float32 0x3F800000, Float32 0x40A00000]]\<rparr>)"
proof -
  have r: "rectangular example_dirty" and d: "distinct (df_columns example_dirty)"
    and l: "length (medians example_ab) = length (columns example_ab)"
    by (simp_all add: sanitizer_examples rectangular_def)
  have e: "apply_sanitizer example_dirty example_ab ''X_request'' =
     ([WARN ''X_request'' 2, INFO ''X_request'' 2],
      Inr \<lparr>df_index = [0, 1], df_columns = [''a'', ''b''],
           df_values = [[Float32 0x3F800000, Float32 0x40A00000],
                        [Float32 0x3F800000, Float32 0x40A00000]]\<rparr>)"
    by (simp add: sanitizer_examples table_defs float_defs)
  from apply_sanitizer_table [OF r d l, of "''X_request''"] r d e show ?thesis
    by simp
qed


lemma reindex_rows:
  assumes "rectangular X" "reindex X cs = Inr Xn"
  shows "\<forall>row \<in> set (df_values Xn). length row = length cs"
proof (cases "df_columns X = cs")
  case True
  with assms(2) have "Xn = X" by (simp add: reindex_def)
  with True assms(1) show ?thesis by (auto simp: rectangular_row)
next
  case False
  with assms(2) show ?thesis by (auto simp: reindex_def split: if_splits)
qed

lemma impute_spec_cells_finite:
  assumes "\<forall>m \<in> set ms. isfinite m" "\<forall>row \<in> set arr. length row \<le> length ms"
  shows "\<forall>row \<in> set (impute_spec ms arr). \<forall>x \<in> set row. isfinite x"
proof (intro ballI)
  fix row x assume "row \<in> set (impute_spec ms arr)" "x \<in> set row"
  then obtain r j where r: "r \<in> set arr" and j: "j < length r"
    and x: "x = (if isfinite (r ! j) then r ! j else ms ! j)"
    by (auto simp: impute_spec_def)
  from r j assms(2) have "j < length ms" by fastforce
  with assms(1) have "isfinite (ms ! j)" by simp
  with x show "isfinite x" by simp
qed

text \<open>
  Claim C9.  With finite medians, at least as many as the columns, no cell of the table
  that \<^verbatim>\<open>apply_sanitizer\<close> returns is a NaN; and on a table with distinct column labels it
  does return a table.  (A pandas table is rectangular.)
\<close>

theorem apply_sanitizer_no_nan:
  assumes "rectangular X" "\<forall>m \<in> set (medians s). isfinite m"
    and "length (columns s) \<le> length (medians s)"
  shows "(\<forall>out T. apply_sanitizer X s name = (out, Inr T) \<longrightarrow>
            (\<forall>row \<in> set (df_values T). \<forall>c \<in> set row. \<not> cell_isnan c)) \<and>
         (distinct (df_columns X) \<longrightarrow> (\<exists>out T. apply_sanitizer X s name = (out, Inr T)))"
proof (intro conjI allI impI)
  fix out T assume a: "apply_sanitizer X s name = (out, Inr T)"
  show "\<forall>row \<in> set (df_values T). \<forall>c \<in> set row. \<not> cell_isnan c"
  proof (cases "reindex X (columns s)")
    case (Inl e)
    with a show ?thesis by (simp add: apply_sanitizer_def)
  next
    case (Inr Xn)
    define arr where "arr = map (map astype_float64) (df_values Xn)"
    have len: "\<forall>row \<in> set (df_values Xn). length row \<le> length (medians s)"
      using reindex_rows [OF assms(1) Inr] assms(3) by simp
    then have "\<forall>row \<in> set arr. length row \<le> length (medians s)"
      by (simp add: arr_def)
    from impute_spec_cells_finite [OF assms(2) this]
    have fin: "\<forall>row \<in> set (impute_spec (medians s) arr). \<forall>x \<in> set row. isfinite x" .
    from apply_sanitizer_success [OF Inr len arr_def refl, of name] a
    have "df_values T = map (map (\<lambda>v. Float32 (f64_to_f32 v))) (impute_spec (medians s) arr)"
      by auto
    moreover have "\<not> cell_isnan (Float32 (f64_to_f32 x))" if "isfinite x" for x
      using that f64_to_f32_not_nan [of x] isnan_not_finite [of x] by auto
    ultimately show ?thesis using fin by auto
  qed
next
  assume "distinct (df_columns X)"
  from sanitized_cells [OF assms(1) this assms(3), of name]
  show "\<exists>out T. apply_sanitizer X s name = (out, Inr T)" by blast
qed

theorem apply_sanitizer_no_nan_witness:
  "rectangular example_dirty \<and> medians example_ab = [0x3FF0000000000000, 0x4000000000000000] \<and>
   isfinite 0x3FF0000000000000 \<and> isfinite 0x4000000000000000 \<and>
   apply_sanitizer example_dirty example_ab ''X_request'' =
     ([WARN ''X_request'' 2, INFO ''X_request'' 2],
      Inr \<lparr>df_index = [0, 1], df_columns = [''a'', ''b''],
           df_values = [[Float32 0x3F800000, Float32 0x40A00000],
                        [Float32 0x3F800000, Float32 0x40A00000]]\<rparr>) \<and>
   \<not> cell_isnan (Float32 0x3F800000) \<and> \<not> cell_isnan (Float32 0x40A00000)"
proof -
  have r: "rectangular example_dirty"
    and l: "length (columns example_ab) \<le> length (medians example_ab)"
    and m: "medians example_ab = [0x3FF0000000000000, 0x4000000000000000]"
    and f: "isfinite 0x3FF0000000000000" "isfinite 0x4000000000000000"
    by (simp_all add: sanitizer_examples rectangular_def float_defs)
  from m f have fm: "\<forall>m \<in> set (medians example_ab). isfinite m"
    by simp
  have e: "apply_sanitizer example_dirty example_ab ''X_request'' =
     ([WARN ''X_request'' 2, INFO ''X_request'' 2],
      Inr \<lparr>df_index = [0, 1], df_columns = [''a'', ''b''],
           df_values = [[Float32 0x3F800000, Float32 0x40A00000],
                        [Float32 0x3F800000, Float32 0x40A00000]]\<rparr>)"
    by (simp add: sanitizer_examples table_defs float_defs)
  from apply_sanitizer_no_nan [OF r fm l, of "''X_request''"] e
  have "\<not> cell_isnan (Float32 0x3F800000) \<and> \<not> cell_isnan (Float32 0x40A00000)"
    by simp
  with r m f e show ?thesis by simp
qed

lemma apply_sanitizer_clean:
  assumes "reindex X (columns s) = Inr Xn"
    and "\<forall>row \<in> set (df_values Xn). \<forall>c \<in> set row. isfinite (astype_float64 c)"
  shows "apply_sanitizer X s name =
    ([], Inr \<lparr>df_index = df_index X, df_columns = columns s,
              df_values = map (map (\<lambda>c. Float32 (f64_to_f32 (astype_float64 c)))) (df_values Xn)\<rparr>)"
proof -
  define arr where "arr = map (map astype_float64) (df_values Xn)"
  have fin: "\<forall>row \<in> set arr. \<forall>x \<in> set row. isfinite x"
    using assms(2) by (auto simp: arr_def)
  then have no: "\<not> mask_any (map (map (\<lambda>v. \<not> isfinite v)) arr)"
    by (simp add: not_mask_any_finite)
  have no2: "\<not> mask_any (map (map isnan) arr)"
    using fin isnan_not_finite by (auto simp: mask_any_def list_ex_iff)
  have "apply_sanitizer X s name =
    ([], Inr \<lparr>df_index = df_index X, df_columns = columns s,
              df_values = map (map (\<lambda>v. Float32 (f64_to_f32 v))) arr\<rparr>)"
    unfolding apply_sanitizer_def assms(1) sum.case Let_def arr_def [symmetric]
    using no no2 by simp
  then show ?thesis
    by (simp add: arr_def comp_def)
qed

text \<open>
  Claim C7, as the code has it.  On a table that has the columns of the sanitizer in
  their order, whose values are finite and stay finite when cast to binary32, the
  sanitizer prints nothing, returns every value cast to binary32, and sanitizing its
  result returns that result again, also with nothing printed.
\<close>

theorem apply_sanitizer_idempotent_in_range:
  assumes "df_columns X = columns s"
    and "\<forall>row \<in> set (df_values X). \<forall>c \<in> set row.
           isfinite (astype_float64 c) \<and> isfinite32 (f64_to_f32 (astype_float64 c))"
  shows "\<exists>T. apply_sanitizer X s name = ([], Inr T) \<and>
    df_index T = df_index X \<and> df_columns T = columns s \<and>
    df_values T = map (map (\<lambda>c. Float32 (f64_to_f32 (astype_float64 c)))) (df_values X) \<and>
    apply_sanitizer T s name = ([], Inr T)"
proof -
  define T where "T = \<lparr>df_index = df_index X, df_columns = columns s,
    df_values = map (map (\<lambda>c. Float32 (f64_to_f32 (astype_float64 c)))) (df_values X)\<rparr>"
  have once: "apply_sanitizer X s name = ([], Inr T)"
    unfolding T_def using assms(2) by (intro apply_sanitizer_clean reindex_same assms(1)) blast
  have cellsT: "\<exists>y. c = Float32 y \<and> isfinite32 y" if "row \<in> set (df_values T)" "c \<in> set row"
    for row c
    using that assms(2) by (auto simp: T_def)
  have finT: "\<forall>row \<in> set (df_values T). \<forall>c \<in> set row. isfinite (astype_float64 c)"
  proof (intro ballI)
    fix row c assume "row \<in> set (df_values T)" "c \<in> set row"
    from cellsT [OF this] obtain y where "c = Float32 y" "isfinite32 y" by blast
    then show "isfinite (astype_float64 c)" by (simp add: f32_to_f64_finite)
  qed
  have "Float32 (f64_to_f32 (astype_float64 c)) = c" if "row \<in> set (df_values T)" "c \<in> set row"
    for row c
  proof -
    from cellsT [OF that] obtain y where "c = Float32 y" "isfinite32 y" by blast
    then show ?thesis by (simp add: f64_to_f32_round_trip)
  qed
  then have same: "map (map (\<lambda>c. Float32 (f64_to_f32 (astype_float64 c)))) (df_values T) =
      df_values T"
    by (simp add: map_idI)
  have "reindex T (columns s) = Inr T"
    by (rule reindex_same) (simp add: T_def)
  from apply_sanitizer_clean [OF this finT, of name]
  have twice: "apply_sanitizer T s name = ([], Inr T)"
    unfolding same by (simp add: T_def)
  from once twice show ?thesis
    by (auto simp: T_def)
qed

theorem apply_sanitizer_idempotent_in_range_witness:
  "df_columns example_clean = columns example_ab \<and>
   apply_sanitizer example_clean example_ab ''X_request'' =
     ([], Inr \<lparr>df_index = [0], df_columns = [''a'', ''b''],
               df_values = [[Float32 0x40A00000, Float32 0x40000000]]\<rparr>) \<and>
   apply_sanitizer
     \<lparr>df_index = [0::nat], df_columns = [''a'', ''b''],
      df_values = [[Float32 0x40A00000, Float32 0x40000000]]\<rparr> example_ab ''X_request'' =
     ([], Inr \<lparr>df_index = [0], df_columns = [''a'', ''b''],
               df_values = [[Float32 0x40A00000, Float32 0x40000000]]\<rparr>)"
proof -
  have c: "df_columns example_clean = columns example_ab"
    by (simp add: sanitizer_examples)
  have f: "\<forall>row \<in> set (df_values example_clean). \<forall>c \<in> set row.
           isfinite (astype_float64 c) \<and> isfinite32 (f64_to_f32 (astype_float64 c))"
    by (simp add: sanitizer_examples float_defs)
  have v: "map (map (\<lambda>c. Float32 (f64_to_f32 (astype_float64 c)))) (df_values example_clean) =
      [[Float32 0x40A00000, Float32 0x40000000]]"
    by (simp add: sanitizer_examples float_defs)
  from apply_sanitizer_idempotent_in_range [OF c f, of "''X_request''"]
  obtain T where t: "apply_sanitizer example_clean example_ab ''X_request'' = ([], Inr T)"
    "df_index T = df_index example_clean" "df_columns T = columns example_ab"
    "df_values T = [[Float32 0x40A00000, Float32 0x40000000]]"
    "apply_sanitizer T example_ab ''X_request'' = ([], Inr T)"
    unfolding v by blast
  have "T = \<lparr>df_index = [0], df_columns = [''a'', ''b''],
               df_values = [[Float32 0x40A00000, Float32 0x40000000]]\<rparr>"
    using t(2,3,4) by (simp add: sanitizer_examples)
  with t(1,5) c show ?thesis by simp
qed

text \<open>
  Claim C7, as it is stated, fails.  The table \<open>example_overflow\<close> has the columns of the
  sanitizer and no NaN and no infinity, since \<open>1e39\<close> is a finite binary64 value.  The
  sanitizer prints nothing and returns the binary32 infinity in its place, which is not
  the value up to binary32 precision; sanitizing that result reports one repair and
  returns the median \<open>1.0\<close> there, so sanitizing twice is not sanitizing once.
\<close>

theorem apply_sanitizer_overflow_not_idempotent:
  "df_columns example_overflow = columns example_ab \<and>
   df_values example_overflow =
     [[Float64 0x48078287F49C4A1D, Float64 0x4014000000000000]] \<and>
   isfinite 0x48078287F49C4A1D \<and> isfinite 0x4014000000000000 \<and>
   apply_sanitizer example_overflow example_ab ''X_request'' =
     ([], Inr \<lparr>df_index = [0], df_columns = [''a'', ''b''],
               df_values = [[Float32 0x7F800000, Float32 0x40A00000]]\<rparr>) \<and>
   \<not> isfinite32 0x7F800000 \<and>
   apply_sanitizer
     \<lparr>df_index = [0::nat], df_columns = [''a'', ''b''],
      df_values = [[Float32 0x7F800000, Float32 0x40A00000]]\<rparr> example_ab ''X_request'' =
     ([WARN ''X_request'' 1, INFO ''X_request'' 1],
      Inr \<lparr>df_index = [0::nat], df_columns = [''a'', ''b''],
           df_values = [[Float32 0x3F800000, Float32 0x40A00000]]\<rparr>) \<and>
   apply_sanitizer
     \<lparr>df_index = [0::nat], df_columns = [''a'', ''b''],
      df_values = [[Float32 0x7F800000, Float32 0x40A00000]]\<rparr> example_ab ''X_request'' \<noteq>
     apply_sanitizer example_overflow example_ab ''X_request''"
  by (simp add: sanitizer_examples table_defs float_defs)

section \<open>Facts about comparisons\<close>

lemma significand_less:
  assumes "f1 < 2 ^ p" "f2 < 2 ^ p" "e1 * 2 ^ p + f1 < e2 * 2 ^ p + f2"
  shows "significand p e1 f1 < significand p e2 f2"
proof -
  have "e1 \<le> e2"
  proof (rule ccontr)
    assume "\<not> e1 \<le> e2"
    then have "e2 + 1 \<le> e1" by simp
    then have "(e2 + 1) * 2 ^ p \<le> e1 * 2 ^ p" by (rule mult_le_mono1)
    with assms(2,3) show False by (simp add: add_mult_distrib)
  qed
  then consider "e1 = e2" | "e1 < e2" by fastforce
  then show ?thesis
  proof cases
    case 1
    with assms(3) have "f1 < f2" by simp
    with 1 show ?thesis by (simp add: significand_def)
  next
    case 2
    then obtain k where k: "e2 = Suc k" "e1 \<le> k" by (cases e2) auto
    have "significand p e1 f1 < 2 ^ p * 2 ^ e1"
    proof (cases e1)
      case 0
      with assms(1) show ?thesis by (simp add: significand_def)
    next
      case (Suc j)
      have "(2 ^ p + f1) * 2 ^ j < (2 ^ p + 2 ^ p) * 2 ^ j"
        using assms(1) by simp
      then show ?thesis by (simp add: significand_def Suc)
    qed
    also have "2 ^ p * 2 ^ e1 \<le> 2 ^ p * (2::nat) ^ k"
      using k(2) by simp
    also have "\<dots> \<le> significand p e2 f2"
      by (simp add: significand_def k(1))
    finally show ?thesis .
  qed
qed

lemma significand_le_iff:
  assumes "f1 < 2 ^ p" "f2 < 2 ^ p"
  shows "significand p e1 f1 \<le> significand p e2 f2 \<longleftrightarrow> e1 * 2 ^ p + f1 \<le> e2 * 2 ^ p + f2"
proof
  assume l: "significand p e1 f1 \<le> significand p e2 f2"
  show "e1 * 2 ^ p + f1 \<le> e2 * 2 ^ p + f2"
  proof (rule ccontr)
    assume "\<not> e1 * 2 ^ p + f1 \<le> e2 * 2 ^ p + f2"
    then have "e2 * 2 ^ p + f2 < e1 * 2 ^ p + f1" by simp
    from significand_less [OF assms(2,1) this] l show False by simp
  qed
next
  assume l: "e1 * 2 ^ p + f1 \<le> e2 * 2 ^ p + f2"
  show "significand p e1 f1 \<le> significand p e2 f2"
  proof (cases "e1 * 2 ^ p + f1 = e2 * 2 ^ p + f2")
    case True
    have "(e1 * 2 ^ p + f1) div 2 ^ p = e1" "(e2 * 2 ^ p + f2) div 2 ^ p = e2"
      using assms by simp_all
    with True have "e1 = e2" by simp
    with True show ?thesis by simp
  next
    case False
    with l have "e1 * 2 ^ p + f1 < e2 * 2 ^ p + f2" by simp
    from significand_less [OF assms this] show ?thesis by simp
  qed
qed

lemma significand_zero_iff: "significand p e f = 0 \<longleftrightarrow> e * 2 ^ p + f = 0"
  by (auto simp: significand_def)

lemma signed_order:
  fixes m1 m2 v1 v2 :: nat
  assumes "v1 \<le> v2 \<longleftrightarrow> m1 \<le> m2" "v2 \<le> v1 \<longleftrightarrow> m2 \<le> m1"
    and "v1 = 0 \<longleftrightarrow> m1 = 0" "v2 = 0 \<longleftrightarrow> m2 = 0"
  shows "(if s2 then - int m2 else int m2) \<le> (if s1 then - int m1 else int m1) \<longleftrightarrow>
         (if s2 then - int v2 else int v2) \<le> (if s1 then - int v1 else int v1)"
  using assms by (cases s1; cases s2) auto

lemma magnitude_fields64: "unat w mod 2 ^ 63 = exp64 w * 2 ^ 52 + frac64 w"
proof -
  have "exp64 w * 2 ^ 52 + frac64 w < 2 ^ 63"
  proof -
    have "exp64 w * 2 ^ 52 \<le> 2047 * 2 ^ 52" using exp64_less [of w] by simp
    then show ?thesis using frac64_less [of w] by simp
  qed
  moreover have "unat w = exp64 w * 2 ^ 52 + frac64 w + sign64 w * 2 ^ 63"
    using fields64 [of w] by simp
  ultimately show ?thesis
    by (metis mod_less mod_mult_self1)
qed

lemma magnitude_fields32: "unat w mod 2 ^ 31 = exp32 w * 2 ^ 23 + frac32 w"
proof -
  have "exp32 w * 2 ^ 23 + frac32 w < 2 ^ 31"
  proof -
    have "exp32 w * 2 ^ 23 \<le> 255 * 2 ^ 23" using exp32_less [of w] by simp
    then show ?thesis using frac32_less [of w] by simp
  qed
  moreover have "unat w = exp32 w * 2 ^ 23 + frac32 w + sign32 w * 2 ^ 31"
    using fields32 [of w] by simp
  ultimately show ?thesis
    by (metis mod_less mod_mult_self1)
qed

lemma float64_ge_value:
  assumes "\<not> isnan a" "\<not> isnan b"
  shows "float64_ge a b \<longleftrightarrow> value64 b \<le> value64 a"
proof -
  note le = significand_le_iff [OF frac64_less frac64_less]
  have "(if sign64 b = 1 then - int (exp64 b * 2 ^ 52 + frac64 b)
         else int (exp64 b * 2 ^ 52 + frac64 b)) \<le>
        (if sign64 a = 1 then - int (exp64 a * 2 ^ 52 + frac64 a)
         else int (exp64 a * 2 ^ 52 + frac64 a)) \<longleftrightarrow>
        (if sign64 b = 1 then - int (significand 52 (exp64 b) (frac64 b))
         else int (significand 52 (exp64 b) (frac64 b))) \<le>
        (if sign64 a = 1 then - int (significand 52 (exp64 a) (frac64 a))
         else int (significand 52 (exp64 a) (frac64 a)))"
    by (rule signed_order) (simp_all add: le significand_zero_iff del: power_numeral)
  then show ?thesis
    using assms
    by (simp only: float64_ge_def magnitude64_def value64_def magnitude_fields64 Let_def simp_thms)
qed

lemma float32_ge_value:
  assumes "\<not> isnan32 a" "\<not> isnan32 b"
  shows "float32_ge a b \<longleftrightarrow> value32 b \<le> value32 a"
proof -
  note le = significand_le_iff [OF frac32_less frac32_less]
  have "(if sign32 b = 1 then - int (exp32 b * 2 ^ 23 + frac32 b)
         else int (exp32 b * 2 ^ 23 + frac32 b)) \<le>
        (if sign32 a = 1 then - int (exp32 a * 2 ^ 23 + frac32 a)
         else int (exp32 a * 2 ^ 23 + frac32 a)) \<longleftrightarrow>
        (if sign32 b = 1 then - int (significand 23 (exp32 b) (frac32 b) * 2 ^ 925)
         else int (significand 23 (exp32 b) (frac32 b) * 2 ^ 925)) \<le>
        (if sign32 a = 1 then - int (significand 23 (exp32 a) (frac32 a) * 2 ^ 925)
         else int (significand 23 (exp32 a) (frac32 a) * 2 ^ 925))"
    by (rule signed_order) (simp_all add: le significand_zero_iff del: power_numeral)
  then show ?thesis
    using assms
    by (simp only: float32_ge_def magnitude32_def value32_def magnitude_fields32 Let_def simp_thms)
qed


lemma significand_widen:
  assumes "exp32 y \<noteq> 255"
  shows "significand 52 (exp64 (f32_to_f64 y)) (frac64 (f32_to_f64 y)) =
    significand 23 (exp32 y) (frac32 y) * 2 ^ 925"
proof (cases "exp32 y = 0")
  case True
  show ?thesis
  proof (cases "frac32 y = 0")
    case True
    with \<open>exp32 y = 0\<close> show ?thesis
      by (simp add: f32_to_f64_zero significand_def)
  next
    case False
    define sd where "sd = count_leading_zeros32 (frac32 y) - 8"
    note fld = f32_to_f64_subnormal [OF True False sd_def]
    from subnormal_shift [of "frac32 y"] False frac32_less [of y]
    have sd: "1 \<le> sd" "sd \<le> 23" and g: "2 ^ 23 \<le> frac32 y * 2 ^ sd"
      by (simp_all add: sd_def)
    have "2 ^ 52 + (frac32 y * 2 ^ sd - 2 ^ 23) * 2 ^ 29 = frac32 y * 2 ^ sd * 2 ^ 29"
      using g by (simp add: diff_mult_distrib)
    then have "(2 ^ 52 + (frac32 y * 2 ^ sd - 2 ^ 23) * 2 ^ 29) * 2 ^ (896 - sd) =
        frac32 y * 2 ^ 29 * (2 ^ sd * 2 ^ (896 - sd))"
      by (simp only:) (simp add: mult.assoc mult.left_commute)
    also have "(2::nat) ^ sd * 2 ^ (896 - sd) = 2 ^ 896"
      using sd by (simp only: power_add [symmetric]) simp
    also have "frac32 y * 2 ^ 29 * (2::nat) ^ 896 = frac32 y * 2 ^ 925"
      by (simp only: mult.assoc power_add [symmetric]) simp
    finally have "(2 ^ 52 + (frac32 y * 2 ^ sd - 2 ^ 23) * 2 ^ 29) * 2 ^ (896 - sd) =
        frac32 y * 2 ^ 925" .
    moreover have "897 - sd \<noteq> 0" "897 - sd - 1 = 896 - sd" using sd by simp_all
    ultimately show ?thesis
      unfolding fld significand_def using True by (simp only: if_False if_True simp_thms)
  qed
next
  case False
  note fld = f32_to_f64_normal [OF False assms]
  obtain k where k: "exp32 y = Suc k" using False by (cases "exp32 y") auto
  have "2 ^ 52 + frac32 y * 2 ^ 29 = (2 ^ 23 + frac32 y) * 2 ^ 29" by simp
  then have "(2 ^ 52 + frac32 y * 2 ^ 29) * 2 ^ (k + 896) =
      (2 ^ 23 + frac32 y) * (2 ^ 29 * 2 ^ (k + 896))"
    by (simp only: mult.assoc)
  also have "(2::nat) ^ 29 * 2 ^ (k + 896) = 2 ^ k * 2 ^ 925"
    by (simp only: power_add [symmetric]) (simp add: add.commute)
  finally have "(2 ^ 52 + frac32 y * 2 ^ 29) * 2 ^ (k + 896) =
      (2 ^ 23 + frac32 y) * 2 ^ k * 2 ^ 925"
    by (simp only: mult.assoc)
  moreover have "exp32 y + 896 \<noteq> 0" "exp32 y + 896 - 1 = k + 896" "exp32 y - 1 = k"
    using k by simp_all
  ultimately show ?thesis
    unfolding fld significand_def using False by (simp only: if_False if_True simp_thms)
qed

lemma value64_widen:
  assumes "isfinite32 y"
  shows "value64 (f32_to_f64 y) = value32 y"
proof -
  have e: "exp32 y \<noteq> 255" using assms by (simp add: isfinite32_def)
  have s: "sign64 (f32_to_f64 y) = sign32 y"
    using e f32_to_f64_zero(1) [of y] f32_to_f64_subnormal(1) [of y, OF _ _ refl]
      f32_to_f64_normal(1) [of y]
    by (cases "exp32 y = 0"; cases "frac32 y = 0") auto
  show ?thesis
    unfolding value64_def value32_def Let_def s significand_widen [OF e] ..
qed

section \<open>Claims about prediction\<close>

lemma second_column_length:
  "second_column rows = Inr ps \<Longrightarrow> length ps = length rows"
  by (induction rows arbitrary: ps) (auto split: if_splits sum.splits)

lemma predict_labels_from:
  assumes "predict_from_dataframe d df threshold_arg artifacts_arg name w =
    (Inr (proba, labels, a), w')"
    and "t = (case threshold_arg of None \<Rightarrow> DEFAULT_DECISION_THRESHOLD | Some x \<Rightarrow> x)"
  shows "\<exists>probabilities. proba_labels probabilities t = Inr (proba, labels)"
  using assms(1) unfolding predict_from_dataframe_def Let_def assms(2) [symmetric]
  by (auto split: prod.splits sum.splits option.splits)

lemma proba_labels_64:
  assumes "proba_labels probabilities t = Inr (Vector64 ps, labels)"
  shows "labels = map (\<lambda>p. if float64_ge p t then 1 else 0) ps"
  using assms by (auto simp: proba_labels_def split: ndarray2.splits sum.splits)

lemma proba_labels_32:
  assumes "proba_labels probabilities t = Inr (Vector32 ps, labels)"
  shows "labels = map (\<lambda>p. if float32_ge p (f64_to_f32 t) then 1 else 0) ps"
  using assms by (auto simp: proba_labels_def split: ndarray2.splits sum.splits)

text \<open>
  Claim C2, as the code has it.  Whenever \<^verbatim>\<open>predict_from_dataframe\<close> returns, there is one
  label per probability, 1 or 0, and the label is 1 exactly when the probability is
  greater than or equal to the threshold in the format of the probabilities.  For binary64
  probabilities that is the comparison of the two numbers themselves.  For binary32
  probabilities the threshold is first cast to binary32, and the comparison is with that
  number; it is the comparison with the threshold itself when binary32 holds the
  threshold exactly, as it does the default.  A probability equal to the number compared
  with has label 1.  The threshold is the one passed, and without one the constant of the
  configuration, which stands for \<open>0.5\<close>.
\<close>

theorem predict_labels_compare:
  assumes "predict_from_dataframe d df threshold_arg artifacts_arg name w =
    (Inr (proba, labels, a), w')"
    and "t = (case threshold_arg of None \<Rightarrow> DEFAULT_DECISION_THRESHOLD | Some x \<Rightarrow> x)"
  shows "(\<forall>ps. proba = Vector64 ps \<longrightarrow>
            length labels = length ps \<and>
            (\<forall>i < length ps.
               (labels ! i = 1 \<or> labels ! i = 0) \<and>
               (isnan (ps ! i) \<or> isnan t \<longrightarrow> labels ! i = 0) \<and>
               (\<not> isnan (ps ! i) \<and> \<not> isnan t \<longrightarrow>
                  (labels ! i = 1 \<longleftrightarrow> value64 t \<le> value64 (ps ! i))))) \<and>
         (\<forall>ps. proba = Vector32 ps \<longrightarrow>
            length labels = length ps \<and>
            (\<forall>i < length ps.
               (labels ! i = 1 \<or> labels ! i = 0) \<and>
               (isnan32 (ps ! i) \<or> isnan t \<longrightarrow> labels ! i = 0) \<and>
               (\<not> isnan32 (ps ! i) \<and> \<not> isnan t \<longrightarrow>
                  (labels ! i = 1 \<longleftrightarrow> value32 (f64_to_f32 t) \<le> value32 (ps ! i))) \<and>
               (\<forall>y. isfinite32 y \<and> t = f32_to_f64 y \<and> \<not> isnan32 (ps ! i) \<longrightarrow>
                  (labels ! i = 1 \<longleftrightarrow> value64 t \<le> value32 (ps ! i))))) \<and>
         value64 DEFAULT_DECISION_THRESHOLD * 2 = 2 ^ 1074 \<and>
         f32_to_f64 (f64_to_f32 DEFAULT_DECISION_THRESHOLD) = DEFAULT_DECISION_THRESHOLD"
proof (intro conjI allI impI)
  fix ps assume p: "proba = Vector64 ps"
  from predict_labels_from [OF assms] p obtain probabilities
    where "proba_labels probabilities t = Inr (Vector64 ps, labels)" by blast
  then have l: "labels = map (\<lambda>p. if float64_ge p t then 1 else 0) ps"
    by (rule proba_labels_64)
  then show "length labels = length ps" by simp
  fix i assume i: "i < length ps"
  with l have v: "labels ! i = (if float64_ge (ps ! i) t then 1 else 0)" by simp
  then show "labels ! i = 1 \<or> labels ! i = 0" by simp
  show "labels ! i = 0" if "isnan (ps ! i) \<or> isnan t"
    using that v by (auto simp: float64_ge_def)
  show "labels ! i = 1 \<longleftrightarrow> value64 t \<le> value64 (ps ! i)" if "\<not> isnan (ps ! i) \<and> \<not> isnan t"
    using that v float64_ge_value [of "ps ! i" t] by simp
next
  fix ps assume p: "proba = Vector32 ps"
  from predict_labels_from [OF assms] p obtain probabilities
    where "proba_labels probabilities t = Inr (Vector32 ps, labels)" by blast
  then have l: "labels = map (\<lambda>p. if float32_ge p (f64_to_f32 t) then 1 else 0) ps"
    by (rule proba_labels_32)
  then show "length labels = length ps" by simp
  fix i assume i: "i < length ps"
  with l have v: "labels ! i = (if float32_ge (ps ! i) (f64_to_f32 t) then 1 else 0)" by simp
  then show "labels ! i = 1 \<or> labels ! i = 0" by simp
  show "labels ! i = 0" if "isnan32 (ps ! i) \<or> isnan t"
  proof -
    have "isnan32 (f64_to_f32 t)" if "isnan t"
    proof -
      from that have e: "exp64 t = 2047" and f: "frac64 t \<noteq> 0" by (simp_all add: isnan_def)
      have b: "frac64 t div 2 ^ 29 < 2 ^ 23"
        using frac64_less [of t] by (simp add: less_mult_imp_div_less)
      have "take_bit 23 ((2::nat) ^ 22 OR frac64 t div 2 ^ 29) =
          take_bit 23 (2 ^ 22) OR take_bit 23 (frac64 t div 2 ^ 29)"
        by (rule take_bit_or)
      also have "take_bit 23 (frac64 t div 2 ^ 29) = frac64 t div 2 ^ 29"
        using b by (simp only: take_bit_nat_eq_self_iff)
      also have "take_bit 23 ((2::nat) ^ 22) = 2 ^ 22"
        by (simp only: take_bit_nat_eq_self_iff) simp
      finally have o: "(2::nat) ^ 22 OR frac64 t div 2 ^ 29 < 2 ^ 23"
        by (simp only: take_bit_nat_eq_self_iff)
      have nz: "(2::nat) ^ 22 OR frac64 t div 2 ^ 29 \<noteq> 0"
        by (simp add: or_eq_0_iff)
      have lt: "255 * 2 ^ 23 + (2 ^ 22 OR frac64 t div 2 ^ 29) < (2::nat) ^ 31"
        using o by simp
      have x: "f64_to_f32 t = pack32 (sign64 t) 255 (2 ^ 22 OR frac64 t div 2 ^ 29)"
        using e f by (simp add: f64_to_f32_def Let_def)
      have "exp32 (f64_to_f32 t) = 255"
        unfolding x using exp32_pack32 [OF sign64_le lt] o by simp
      moreover have "frac32 (f64_to_f32 t) \<noteq> 0"
        unfolding x using frac32_pack32 [OF sign64_le lt] o nz by simp
      ultimately show ?thesis by (simp add: isnan32_def)
    qed
    with that v show ?thesis by (auto simp: float32_ge_def)
  qed
  show "labels ! i = 1 \<longleftrightarrow> value32 (f64_to_f32 t) \<le> value32 (ps ! i)"
    if "\<not> isnan32 (ps ! i) \<and> \<not> isnan t"
    using that v float32_ge_value [of "ps ! i" "f64_to_f32 t"] f64_to_f32_not_nan [of t]
    by simp
  fix y
  show "labels ! i = 1 \<longleftrightarrow> value64 t \<le> value32 (ps ! i)"
    if "isfinite32 y \<and> t = f32_to_f64 y \<and> \<not> isnan32 (ps ! i)"
  proof -
    from that have y: "isfinite32 y" and t: "t = f32_to_f64 y" and n: "\<not> isnan32 (ps ! i)"
      by simp_all
    have c: "f64_to_f32 t = y" unfolding t using y by (rule f64_to_f32_round_trip)
    have "\<not> isnan32 y" using y by (simp add: isfinite32_def isnan32_def)
    with n v c have "labels ! i = 1 \<longleftrightarrow> value32 y \<le> value32 (ps ! i)"
      using float32_ge_value [of "ps ! i" y] by simp
    then show ?thesis
      using value64_widen [OF y] t by simp
  qed
next
  show "value64 DEFAULT_DECISION_THRESHOLD * 2 = 2 ^ 1074"
    by (simp add: DEFAULT_DECISION_THRESHOLD_def value64_def significand_def sign64_def
        exp64_def frac64_def)
  show "f32_to_f64 (f64_to_f32 DEFAULT_DECISION_THRESHOLD) = DEFAULT_DECISION_THRESHOLD"
    by (simp add: DEFAULT_DECISION_THRESHOLD_def float_defs)
qed


lemmas value_defs = value64_def value32_def significand_def

theorem predict_labels_compare_witness:
  "predict_from_dataframe example_disk example_scores None (Some example_bundle_echo)
     ''X_request'' example_world =
     (Inr (Vector32 [0x3E800000, 0x3F000000, 0x3F400000], [0, 1, 1], example_bundle_echo),
      example_world) \<and>
   value32 0x3E800000 < value64 DEFAULT_DECISION_THRESHOLD \<and>
   value32 0x3F000000 = value64 DEFAULT_DECISION_THRESHOLD \<and>
   value64 DEFAULT_DECISION_THRESHOLD < value32 0x3F400000 \<and>
   fst (predict_from_dataframe example_disk example_request None None ''X_api_request''
     example_world) =
     Inr (Vector64 [0x3FE0000000000000], [1], example_bundle ''20240601-1200'')"
proof -
  have r: "predict_from_dataframe example_disk example_scores None (Some example_bundle_echo)
     ''X_request'' example_world =
     (Inr (Vector32 [0x3E800000, 0x3F000000, 0x3F400000], [0, 1, 1], example_bundle_echo),
      example_world)"
    by (simp add: predict_from_dataframe_def proba_labels_def example_defs sanitizer_examples
        table_defs float_defs DEFAULT_DECISION_THRESHOLD_def)
  have t: "DEFAULT_DECISION_THRESHOLD =
      (case None of None \<Rightarrow> DEFAULT_DECISION_THRESHOLD | Some x \<Rightarrow> x)"
    by simp
  have v: "value32 0x3E800000 < value64 DEFAULT_DECISION_THRESHOLD"
    "value32 0x3F000000 = value64 DEFAULT_DECISION_THRESHOLD"
    "value64 DEFAULT_DECISION_THRESHOLD < value32 0x3F400000"
    by (simp_all add: DEFAULT_DECISION_THRESHOLD_def value_defs float_defs)
  have s: "predict_from_dataframe example_disk example_request None None ''X_api_request''
     example_world =
     (Inr (Vector64 [0x3FE0000000000000], [1], example_bundle ''20240601-1200''),
      example_loaded_world\<lparr>stdout := [WARN ''X_api_request'' 1, INFO ''X_api_request'' 1]\<rparr>)"
    by (simp add: predict_from_dataframe_def proba_labels_def example_defs config_defs
        loading_defs table_defs float_defs example_model_def DEFAULT_DECISION_THRESHOLD_def
        less_eq_char_def less_char_def)
  from predict_labels_compare [OF r t] predict_labels_compare [OF s t] r v s show ?thesis
    by simp
qed

text \<open>
  Claim C2, as it is stated, fails.  A model that answers in binary32 gives the
  probability \<open>0.7\<close> of binary32, which as a number is below the binary64 threshold \<open>0.7\<close>;
  the code compares in binary32, where the threshold is that same value, and the label
  is 1.
\<close>

theorem float32_probability_below_threshold:
  "fst (predict_from_dataframe example_disk example_request (Some 0x3FE6666666666666)
     (Some example_bundle_f32) ''X_request'' example_world) =
     Inr (Vector32 [0x3F333333], [1], example_bundle_f32) \<and>
   value32 0x3F333333 < value64 0x3FE6666666666666 \<and>
   f32_to_f64 0x3F333333 = 0x3FE6666660000000 \<and>
   \<not> float64_ge 0x3FE6666660000000 0x3FE6666666666666"
  by (simp add: predict_from_dataframe_def proba_labels_def example_defs sanitizer_examples
      table_defs float_defs value_defs)

text \<open>
  Claim C8.  On every call, with the bundle passed or loaded, \<^verbatim>\<open>predict_from_dataframe\<close>
  reindexes the request to the feature names of the bundle and gives the result to the
  sanitizer; the model is called on the table that the sanitizer returns, which has the
  columns of the sanitizer, and in which every column that the feature names lack holds
  the median of that column in each row, whatever the request had there.
\<close>

theorem predict_reindexes_before_sanitizing:
  assumes "rectangular df" "distinct (df_columns df)"
    and "(case artifacts_arg of
            None \<Rightarrow> load_artifacts d None True w
          | Some b \<Rightarrow> (Inr b, w)) = (Inr a, w1)"
    and "distinct (feature_names a)"
    and "length (columns (sanitizer a)) \<le> length (medians (sanitizer a))"
  shows "\<exists>df1 out T.
    reindex df (feature_names a) = Inr df1 \<and> df_columns df1 = feature_names a \<and>
    apply_sanitizer df1 (sanitizer a) name = (out, Inr T) \<and>
    predict_from_dataframe d df threshold_arg artifacts_arg name w =
      ((case model a T of
          Inl e \<Rightarrow> Inl e
        | Inr probabilities \<Rightarrow>
            (case proba_labels probabilities
                    (case threshold_arg of None \<Rightarrow> DEFAULT_DECISION_THRESHOLD | Some t \<Rightarrow> t) of
               Inl e \<Rightarrow> Inl e
             | Inr (proba, labels) \<Rightarrow> Inr (proba, labels, a))),
       w1\<lparr>stdout := stdout w1 @ out\<rparr>) \<and>
    df_columns T = columns (sanitizer a) \<and> df_index T = df_index df \<and>
    (\<forall>j < length (columns (sanitizer a)).
       columns (sanitizer a) ! j \<notin> set (feature_names a) \<longrightarrow>
       (\<forall>i < length (df_index df).
          df_values T ! i ! j = Float32 (f64_to_f32 (medians (sanitizer a) ! j))))"
proof -
  define df1 where "df1 = \<lparr>df_index = df_index df, df_columns = feature_names a,
         df_values = map (\<lambda>row. map (take_column (df_columns df) row) (feature_names a))
           (df_values df)\<rparr>"
  have r: "reindex df (feature_names a) = Inr df1"
    unfolding df1_def by (rule reindex_success [OF assms(1,2)])
  have rect: "rectangular df1"
    using assms(1) by (simp add: df1_def rectangular_def list_all_iff)
  have dist: "distinct (df_columns df1)"
    using assms(4) by (simp add: df1_def)
  from sanitized_cells [OF rect dist assms(5), of name]
  obtain out T where s: "apply_sanitizer df1 (sanitizer a) name = (out, Inr T)"
    and c: "df_columns T = columns (sanitizer a)" and x: "df_index T = df_index df1"
    and cells: "\<And>i. i < length (df_index df1) \<Longrightarrow>
       (\<forall>j < length (columns (sanitizer a)).
          df_values T ! i ! j =
            Float32 (f64_to_f32
              (let v = astype_float64
                 (take_column (df_columns df1) (df_values df1 ! i) (columns (sanitizer a) ! j))
               in if isfinite v then v else medians (sanitizer a) ! j)))"
    by auto
  have p: "predict_from_dataframe d df threshold_arg artifacts_arg name w =
      ((case model a T of
          Inl e \<Rightarrow> Inl e
        | Inr probabilities \<Rightarrow>
            (case proba_labels probabilities
                    (case threshold_arg of None \<Rightarrow> DEFAULT_DECISION_THRESHOLD | Some t \<Rightarrow> t) of
               Inl e \<Rightarrow> Inl e
             | Inr (proba, labels) \<Rightarrow> Inr (proba, labels, a))),
       w1\<lparr>stdout := stdout w1 @ out\<rparr>)"
    unfolding predict_from_dataframe_def Let_def assms(3)
    by (simp add: r s split: sum.split prod.split)
  have m: "df_values T ! i ! j = Float32 (f64_to_f32 (medians (sanitizer a) ! j))"
    if "j < length (columns (sanitizer a))" "columns (sanitizer a) ! j \<notin> set (feature_names a)"
      "i < length (df_index df)" for i j
  proof -
    have "take_column (df_columns df1) (df_values df1 ! i) (columns (sanitizer a) ! j) =
        Float64 nan"
      using that(2) by (simp add: take_column_def df1_def get_indexer_None [THEN iffD2])
    moreover have "i < length (df_index df1)" using that(3) by (simp add: df1_def)
    ultimately show ?thesis
      using cells [of i] that(1) isnan_nan isnan_not_finite by (simp add: Let_def)
  qed
  have "df_columns df1 = feature_names a" "df_index df1 = df_index df"
    by (simp_all add: df1_def)
  with r s p c x m show ?thesis by (metis (no_types, lifting))
qed

theorem predict_reindexes_before_sanitizing_witness:
  "df_columns example_request_https = [''src_port'', ''dst_port''] \<and>
   df_values example_request_https =
     [[Float64 0x4054000000000000, Float64 0x407BB00000000000]] \<and>
   fst (load_artifacts example_disk_diverging None True example_world) =
     Inr example_bundle_diverging \<and>
   feature_names example_bundle_diverging = [''src_port''] \<and>
   sanitizer example_bundle_diverging =
     \<lparr>columns = [''src_port'', ''dst_port''], medians = [0, 0x4054000000000000]\<rparr> \<and>
   f64_to_f32 0x4054000000000000 = 0x42A00000 \<and>
   f64_to_f32 0x407BB00000000000 = 0x43DD8000 \<and>
   fst (predict_from_dataframe example_disk_diverging example_request_https None None
     ''X_api_request'' example_world) =
     Inr (Vector32 [0x42A00000], [1], example_bundle_diverging)"
proof -
  have r: "rectangular example_request_https"
    and d: "distinct (df_columns example_request_https)"
    and f: "distinct (feature_names example_bundle_diverging)"
    and l: "length (columns (sanitizer example_bundle_diverging)) \<le>
        length (medians (sanitizer example_bundle_diverging))"
    by (simp_all add: sanitizer_examples rectangular_def)
  have b: "(case None of
            None \<Rightarrow> load_artifacts example_disk_diverging None True example_world
          | Some b \<Rightarrow> (Inr b, example_world)) =
      (Inr example_bundle_diverging,
       example_loaded_world\<lparr>ARTIFACT_CACHE := Some example_bundle_diverging\<rparr>)"
    by (simp add: sanitizer_examples example_defs config_defs loading_defs
        less_eq_char_def less_char_def)
  have c: "df_columns example_request_https = [''src_port'', ''dst_port'']"
    "df_values example_request_https =
       [[Float64 0x4054000000000000, Float64 0x407BB00000000000]]"
    "feature_names example_bundle_diverging = [''src_port'']"
    "sanitizer example_bundle_diverging =
       \<lparr>columns = [''src_port'', ''dst_port''], medians = [0, 0x4054000000000000]\<rparr>"
    "f64_to_f32 0x4054000000000000 = 0x42A00000"
    "f64_to_f32 0x407BB00000000000 = 0x43DD8000"
    by (simp_all add: sanitizer_examples float_defs)
  have x: "reindex example_request_https (feature_names example_bundle_diverging) =
     Inr \<lparr>df_index = [0], df_columns = [''src_port''],
          df_values = [[Float64 0x4054000000000000]]\<rparr>"
    by (simp add: sanitizer_examples table_defs)
  have a: "apply_sanitizer
     \<lparr>df_index = [0::nat], df_columns = [''src_port''],
      df_values = [[Float64 0x4054000000000000]]\<rparr>
     (sanitizer example_bundle_diverging) ''X_api_request'' =
     ([WARN ''X_api_request'' 1, INFO ''X_api_request'' 1],
      Inr \<lparr>df_index = [0], df_columns = [''src_port'', ''dst_port''],
           df_values = [[Float32 0x42A00000, Float32 0x42A00000]]\<rparr>)"
    by (simp add: sanitizer_examples table_defs float_defs)
  from predict_reindexes_before_sanitizing [OF r d b f l, where name = "''X_api_request''"
      and threshold_arg = None]
  obtain df1 out T where
    1: "reindex example_request_https (feature_names example_bundle_diverging) = Inr df1"
    and 2: "apply_sanitizer df1 (sanitizer example_bundle_diverging) ''X_api_request'' =
      (out, Inr T)"
    and 3: "predict_from_dataframe example_disk_diverging example_request_https None None
        ''X_api_request'' example_world =
        ((case model example_bundle_diverging T of
            Inl e \<Rightarrow> Inl e
          | Inr probabilities \<Rightarrow>
              (case proba_labels probabilities
                      (case None of None \<Rightarrow> DEFAULT_DECISION_THRESHOLD | Some t \<Rightarrow> t) of
                 Inl e \<Rightarrow> Inl e
               | Inr (proba, labels) \<Rightarrow> Inr (proba, labels, example_bundle_diverging))),
         example_loaded_world\<lparr>ARTIFACT_CACHE := Some example_bundle_diverging\<rparr>
           \<lparr>stdout := stdout (example_loaded_world
              \<lparr>ARTIFACT_CACHE := Some example_bundle_diverging\<rparr>) @ out\<rparr>)"
    by blast
  from 1 x have "df1 = \<lparr>df_index = [0], df_columns = [''src_port''],
          df_values = [[Float64 0x4054000000000000]]\<rparr>"
    by simp
  with 2 a have "T = \<lparr>df_index = [0], df_columns = [''src_port'', ''dst_port''],
           df_values = [[Float32 0x42A00000, Float32 0x42A00000]]\<rparr>"
    by simp
  with 3 have "fst (predict_from_dataframe example_disk_diverging example_request_https None
     None ''X_api_request'' example_world) =
     Inr (Vector32 [0x42A00000], [1], example_bundle_diverging)"
    by (simp add: example_bundle_diverging_def example_echo_model_def proba_labels_def
        float_defs DEFAULT_DECISION_THRESHOLD_def)
  moreover from b have "fst (load_artifacts example_disk_diverging None True example_world) =
     Inr example_bundle_diverging"
    by simp
  ultimately show ?thesis using c by simp
qed

end
